theory Spec2Isabelle
  imports Complex_Main
begin

section \<open>Conventions of the embedding\<close>

text \<open>
  The effect layers of \<^verbatim>\<open>led/effects.py\<close> are embedded function by function.
  Python floats are read as real numbers, so every statement below is about the
  arithmetic the code writes down, not about rounding. Mutation of \<^verbatim>\<open>self\<close> is
  explicit state passing. Every call of \<^verbatim>\<open>random.random()\<close> takes the next
  element of an explicit list of draws; a function that needs a draw when the list
  is empty answers \<open>Inl DrawsExhausted\<close>. An exception of the interpreter is a
  value \<open>Inl e\<close> as well.
\<close>

datatype error = IndexError | TypeError | ZeroDivisionError | DrawsExhausted

text \<open>Python's truth value of a float-or-None attribute: None and 0.0 are false.\<close>

fun truthy :: "real option \<Rightarrow> bool" where
  "truthy None = False"
| "truthy (Some v) = (v \<noteq> 0)"

section \<open>HeadsetResponsiveEffectLayer\<close>

text \<open>
  The headset reading \<^verbatim>\<open>params.eeg\<close> is an object of a class that is not part of
  this file; the layer reads its attributes \<^verbatim>\<open>attention\<close>, \<^verbatim>\<open>meditation\<close> and
  \<^verbatim>\<open>on\<close> and compares two readings with \<^verbatim>\<open>!=\<close>. The comparison of two
  objects is by identity, which the field \<open>ident\<close> stands for.
\<close>

datatype eeg_field = Attention | Meditation

record eeg_info =
  ident :: nat
  attention :: real
  meditation :: real
  on :: bool

fun getattr :: "eeg_info \<Rightarrow> eeg_field \<Rightarrow> real" where
  "getattr e Attention = attention e"
| "getattr e Meditation = meditation e"

fun eeg_ne :: "eeg_info \<Rightarrow> eeg_info option \<Rightarrow> bool" where
  "eeg_ne e None = True"
| "eeg_ne e (Some e') = (ident e \<noteq> ident e')"

record headset_layer =
  respond_to :: eeg_field
  smooth_response_over_n_secs :: real
  measurements :: "real list"
  timestamps :: "real list"
  last_eeg :: "eeg_info option"
  last_response_level :: "real option"
  fading_to :: "real option"

definition HeadsetResponsiveEffectLayer_init :: "eeg_field \<Rightarrow> real \<Rightarrow> headset_layer" where
  "HeadsetResponsiveEffectLayer_init r n =
     \<lparr>respond_to = r, smooth_response_over_n_secs = n, measurements = [],
      timestamps = [], last_eeg = None, last_response_level = None, fading_to = None\<rparr>"

definition start_fade :: "real \<Rightarrow> headset_layer \<Rightarrow> headset_layer" where
  "start_fade new_level s =
     (if \<not> truthy (last_response_level s)
      then s\<lparr>last_response_level := Some new_level\<rparr>
      else s\<lparr>fading_to := Some new_level\<rparr>)"

definition end_fade :: "headset_layer \<Rightarrow> headset_layer" where
  "end_fade s = s\<lparr>last_response_level := fading_to s, fading_to := None\<rparr>"

text \<open>
  The \<^verbatim>\<open>while idx < N\<close> loop of \<^verbatim>\<open>render\<close>: it stops at the first index whose
  timestamp is more than the window behind the newest one and cuts both lists after
  that index (the slice \<^verbatim>\<open>[:(idx + 1)]\<close>).
\<close>

function trim_loop ::
  "real \<Rightarrow> real list \<Rightarrow> real list \<Rightarrow> nat \<Rightarrow> nat \<Rightarrow> error + (real list \<times> real list)" where
  "trim_loop w ms ts N idx =
     (if idx < N then
        (if idx < length ts then
           (if ts ! 0 - ts ! idx > w
            then Inr (take (idx + 1) ms, take (idx + 1) ts)
            else trim_loop w ms ts N (idx + 1))
         else Inl IndexError)
      else Inr (ms, ts))"
  by pat_completeness auto
termination
  by (relation "measure (\<lambda>(w, ms, ts, N, idx). N - idx)") auto

text \<open>
  \<^verbatim>\<open>render\<close>, with \<^verbatim>\<open>time.time()\<close> as the argument \<open>now\<close>. The result is the
  \<^verbatim>\<open>response_level\<close> handed to \<^verbatim>\<open>render_responsive\<close> and the layer's new state.
\<close>

definition new_reading :: "eeg_info option \<Rightarrow> headset_layer \<Rightarrow> bool" where
  "new_reading eeg s =
     (case eeg of None \<Rightarrow> False | Some e \<Rightarrow> eeg_ne e (last_eeg s) \<and> on e)"

definition render :: "real \<Rightarrow> eeg_info option \<Rightarrow> headset_layer \<Rightarrow> error + (real option \<times> headset_layer)" where
  "render now eeg s =
     (if new_reading eeg s then
        (let s1 = (if truthy (fading_to s) then end_fade s else s);
             s2 = s1\<lparr>measurements := getattr (the eeg) (respond_to s1) # measurements s1,
                     timestamps := now # timestamps s1,
                     last_eeg := eeg\<rparr>
         in case trim_loop (smooth_response_over_n_secs s2) (measurements s2) (timestamps s2)
                   (length (measurements s2)) 0 of
              Inl e \<Rightarrow> Inl e
            | Inr (ms, ts) \<Rightarrow>
                (let s3 = s2\<lparr>measurements := ms, timestamps := ts\<rparr>;
                     s4 = (if length (measurements s3) > 1
                           then start_fade (sum_list (measurements s3) * 1.0
                                             / real (length (measurements s3))) s3
                           else s3)
                 in Inr (last_response_level s4, s4)))
      else if truthy (fading_to s) then
        (case timestamps s of
           [] \<Rightarrow> Inl IndexError
         | t0 # _ \<Rightarrow>
             (let fade_progress = now - t0 in
              if fade_progress \<ge> 1 then
                (let s' = end_fade s in Inr (last_response_level s', s'))
              else
                (case (fading_to s, last_response_level s) of
                   (Some f, Some l) \<Rightarrow> Inr (Some (fade_progress * f + (1 - fade_progress) * l), s)
                 | _ \<Rightarrow> Inl TypeError)))
      else Inr (None, s))"

text \<open>A run of ticks: \<^verbatim>\<open>render\<close> called once per tick with that tick's clock and reading.\<close>

fun render_ticks ::
  "(real \<times> eeg_info option) list \<Rightarrow> headset_layer \<Rightarrow> error + (real option list \<times> headset_layer)" where
  "render_ticks [] s = Inr ([], s)"
| "render_ticks ((now, eeg) # ticks) s =
     (case render now eeg s of
        Inl e \<Rightarrow> Inl e
      | Inr (level, s') \<Rightarrow>
          (case render_ticks ticks s' of
             Inl e \<Rightarrow> Inl e
           | Inr (levels, s'') \<Rightarrow> Inr (level # levels, s'')))"


section \<open>The random source\<close>

text \<open>
  \<^verbatim>\<open>random.choice(seq)\<close> is \<^verbatim>\<open>seq[int(random() * len(seq))]\<close> and
  \<^verbatim>\<open>random.uniform(a, b)\<close> is \<^verbatim>\<open>a + (b - a) * random()\<close>; \<open>u\<close> is the draw.
  \<open>py_index\<close> is list indexing with Python's negative indices.
\<close>

definition py_int :: "real \<Rightarrow> int" where
  "py_int x = (if x \<ge> 0 then \<lfloor>x\<rfloor> else \<lceil>x\<rceil>)"

definition py_index :: "'a list \<Rightarrow> int \<Rightarrow> error + 'a" where
  "py_index xs i =
     (if 0 \<le> i \<and> i < int (length xs) then Inr (xs ! nat i)
      else if i < 0 \<and> - int (length xs) \<le> i then Inr (xs ! nat (int (length xs) + i))
      else Inl IndexError)"

definition choice :: "real \<Rightarrow> 'a list \<Rightarrow> error + 'a" where
  "choice u seq = py_index seq (py_int (u * real (length seq)))"

definition uniform :: "real \<Rightarrow> real \<Rightarrow> real \<Rightarrow> real" where
  "uniform u a b = a + (b - a) * u"

section \<open>The sculpture model and the frame\<close>

text \<open>
  The model object is built outside this file. The layers only read it, so it is a
  record of the attributes they read, each table a total function of its index.
\<close>

record model =
  edges :: "nat \<Rightarrow> nat list"
  edgeHeight :: "nat \<Rightarrow> int"
  edgeListForNodes :: "nat \<Rightarrow> nat list"
  addressForEdge :: "nat \<Rightarrow> string"
  addressMatchesAnyP :: "string \<Rightarrow> string list \<Rightarrow> bool"
  roots :: "nat list"
  outwardAdjacency :: "nat \<Rightarrow> nat list"

type_synonym frame = "real list list"

text \<open>\<^verbatim>\<open>frame[e][v] += c\<close>, an IndexError outside either list.\<close>

definition frame_add :: "frame \<Rightarrow> nat \<Rightarrow> nat \<Rightarrow> real \<Rightarrow> error + frame" where
  "frame_add fr e v c =
     (if e < length fr \<and> v < length (fr ! e)
      then Inr (fr[e := (fr ! e)[v := fr ! e ! v + c]])
      else Inl IndexError)"

definition mixAdd :: "real list \<Rightarrow> real \<Rightarrow> real \<Rightarrow> real \<Rightarrow> error + real list" where
  "mixAdd rgb r g b =
     (if 3 \<le> length rgb
      then Inr (rgb[0 := rgb ! 0 + r, 1 := rgb ! 1 + g, 2 := rgb ! 2 + b])
      else Inl IndexError)"

section \<open>ImpulseLayer2\<close>

datatype motion = Out | In | Loop

record impulse =
  color :: "real list"
  edge :: nat
  previous_edge :: "nat option"
  dead :: bool
  motion :: motion
  loopChance :: real
  bounceChance :: real

text \<open>The constructor; its third parameter is the caller's \<^verbatim>\<open>motion\<close> argument.\<close>

definition Impulse_init :: "real list \<Rightarrow> nat \<Rightarrow> motion \<Rightarrow> impulse" where
  "Impulse_init c e m =
     \<lparr>color = c, edge = e, previous_edge = None, dead = False, motion = Out,
      loopChance = 0.1, bounceChance = 0.2\<rparr>"

definition move_to_any_of :: "real \<Rightarrow> nat list \<Rightarrow> impulse \<Rightarrow> error + impulse" where
  "move_to_any_of u es p =
     (case choice u es of
        Inl x \<Rightarrow> Inl x
      | Inr e \<Rightarrow> Inr (p\<lparr>previous_edge := Some (edge p), edge := e\<rparr>))"

text \<open>
  \<^verbatim>\<open>_node_incoming_and_outgoing\<close>. Indexing \<^verbatim>\<open>model.edges\<close> with a previous edge that
  is still None is a TypeError; \<^verbatim>\<open>[...][0]\<close> on an empty list is an IndexError.
\<close>

definition node_incoming_and_outgoing :: "model \<Rightarrow> impulse \<Rightarrow> error + (nat \<times> nat)" where
  "node_incoming_and_outgoing M p =
     (case previous_edge p of
        None \<Rightarrow> Inl TypeError
      | Some pe \<Rightarrow>
          (let nodes = edges M (edge p); previous_nodes = edges M pe in
           case filter (\<lambda>n. n \<in> set previous_nodes) nodes of
             [] \<Rightarrow> Inl IndexError
           | from_node # _ \<Rightarrow>
               (case filter (\<lambda>n. n \<noteq> from_node) nodes of
                  [] \<Rightarrow> Inl IndexError
                | to_node # _ \<Rightarrow> Inr (from_node, to_node))))"

text \<open>The mode switch behind the \<^verbatim>\<open>loopChance\<close> draw of \<^verbatim>\<open>move\<close>.\<close>

definition switch_motion :: "motion \<Rightarrow> int \<Rightarrow> motion" where
  "switch_motion m height =
     (if m = Out \<and> height = 4 then Loop
      else if m = In \<and> height = 5 then Loop
      else if m = Loop \<and> height = 5 then Out
      else if m = Loop \<and> height = 4 then In
      else m)"

definition switch_step :: "model \<Rightarrow> real \<Rightarrow> impulse \<Rightarrow> impulse" where
  "switch_step M r1 p =
     (if r1 < loopChance p
      then p\<lparr>motion := switch_motion (motion p) (edgeHeight M (edge p))\<rparr>
      else p)"

text \<open>The candidate edges \<^verbatim>\<open>to_edges\<close> of \<^verbatim>\<open>move\<close> for the motion in force.\<close>

definition to_edges :: "model \<Rightarrow> impulse \<Rightarrow> error + nat list" where
  "to_edges M p =
     (let height = edgeHeight M (edge p);
          nodes = edges M (edge p);
          near = filter (\<lambda>e. e \<noteq> edge p) (concat (map (edgeListForNodes M) nodes))
      in case motion p of
           Loop \<Rightarrow>
             (case node_incoming_and_outgoing M p of
                Inl x \<Rightarrow> Inl x
              | Inr (in_node, out_node) \<Rightarrow>
                  Inr (filter (\<lambda>e. addressMatchesAnyP M (addressForEdge M e)
                                     [''*.*.*.*.*'', ''*.*.*.*.1.2'', ''*.*.*.*.2.1''])
                         (filter (\<lambda>e. e \<noteq> edge p) (edgeListForNodes M out_node))))
         | Out \<Rightarrow> Inr (filter (\<lambda>e. edgeHeight M e > height) near)
         | In \<Rightarrow> Inr (filter (\<lambda>e. edgeHeight M e < height) near))"

text \<open>
  \<^verbatim>\<open>move\<close>. The first draw decides the mode switch; the second is the draw of
  \<^verbatim>\<open>random.choice\<close> when there are candidates and the bounce draw when there are none.
  A bounce calls \<^verbatim>\<open>move\<close> again on the rest of the draws.
\<close>

fun Impulse_move :: "model \<Rightarrow> real list \<Rightarrow> impulse \<Rightarrow> error + (impulse \<times> real list)" where
  "Impulse_move M (r1 # r2 # rs) p =
     (let p1 = switch_step M r1 p
      in case to_edges M p1 of
           Inl x \<Rightarrow> Inl x
         | Inr es \<Rightarrow>
             (if es \<noteq> [] then
                (case move_to_any_of r2 es p1 of
                   Inl x \<Rightarrow> Inl x
                 | Inr p2 \<Rightarrow> Inr (p2, rs))
              else if r2 < bounceChance p1 then
                (case motion p1 of
                   Out \<Rightarrow> Impulse_move M rs (p1\<lparr>motion := In\<rparr>)
                 | In \<Rightarrow> Impulse_move M rs (p1\<lparr>motion := Out\<rparr>)
                 | Loop \<Rightarrow> Inr (p1\<lparr>dead := True\<rparr>, rs))
              else Inr (p1\<lparr>dead := True\<rparr>, rs)))"
| "Impulse_move M [r1] p =
     (case to_edges M (switch_step M r1 p) of
        Inl x \<Rightarrow> Inl x
      | Inr es \<Rightarrow> Inl DrawsExhausted)"
| "Impulse_move M [] p = Inl DrawsExhausted"

fun add_channels :: "frame \<Rightarrow> nat \<Rightarrow> nat \<Rightarrow> real list \<Rightarrow> error + frame" where
  "add_channels fr e v [] = Inr fr"
| "add_channels fr e v (c # cs) =
     (case frame_add fr e v c of
        Inl x \<Rightarrow> Inl x
      | Inr fr' \<Rightarrow> add_channels fr' e (v + 1) cs)"

definition Impulse_render :: "impulse \<Rightarrow> frame \<Rightarrow> error + frame" where
  "Impulse_render p fr = (if dead p then Inr fr else add_channels fr (edge p) 0 (color p))"

record impulse_layer =
  pulses :: "impulse option list"
  last_time :: "real option"
  frequency :: real
  spawnChance :: real
  maxColorSaturation :: real
  brightness :: real

definition ImpulseLayer2_init :: "nat \<Rightarrow> impulse_layer" where
  "ImpulseLayer2_init maximum_pulse_count =
     \<lparr>pulses = replicate maximum_pulse_count None, last_time = None, frequency = 0.05,
      spawnChance = 0.25, maxColorSaturation = 0.25, brightness = 0.95\<rparr>"

text \<open>The test \<^verbatim>\<open>p and p.dead\<close> on a slot.\<close>

definition is_dead :: "impulse option \<Rightarrow> bool" where
  "is_dead p = (case p of None \<Rightarrow> False | Some q \<Rightarrow> dead q)"

definition reap_pulses :: "impulse_layer \<Rightarrow> impulse_layer" where
  "reap_pulses L = L\<lparr>pulses := map (\<lambda>p. if is_dead p then None else p) (pulses L)\<rparr>"

fun first_empty :: "'a option list \<Rightarrow> nat option" where
  "first_empty [] = None"
| "first_empty (None # ps) = Some 0"
| "first_empty (Some p # ps) = map_option Suc (first_empty ps)"

text \<open>
  The colour of a new impulse: two draws and \<^verbatim>\<open>colorsys.hsv_to_rgb\<close> (a library
  function, the parameter \<open>hsv_to_rgb\<close>), or no draw for saturation 0.
\<close>

definition spawn_color ::
  "(real \<Rightarrow> real \<Rightarrow> real \<Rightarrow> real list) \<Rightarrow> impulse_layer \<Rightarrow> real list \<Rightarrow> error + (real list \<times> real list)" where
  "spawn_color hsv_to_rgb L rs =
     (if maxColorSaturation L \<noteq> 0 then
        (case rs of
           hue # u # rs' \<Rightarrow>
             Inr (hsv_to_rgb hue (u * maxColorSaturation L) (brightness L), rs')
         | _ \<Rightarrow> Inl DrawsExhausted)
      else Inr ([brightness L, brightness L, brightness L], rs))"

function spawn_pulses ::
  "model \<Rightarrow> (real \<Rightarrow> real \<Rightarrow> real \<Rightarrow> real list) \<Rightarrow> real list \<Rightarrow> impulse_layer
     \<Rightarrow> error + (impulse_layer \<times> real list)" where
  "spawn_pulses M hsv_to_rgb [] L = Inl DrawsExhausted"
| "spawn_pulses M hsv_to_rgb (r # rs) L =
     (if r < spawnChance L then
        (case first_empty (pulses L) of
           None \<Rightarrow> Inr (L, rs)
         | Some i \<Rightarrow>
             (case spawn_color hsv_to_rgb L rs of
                Inl x \<Rightarrow> Inl x
              | Inr (c, rs1) \<Rightarrow>
                  (case rs1 of
                     [] \<Rightarrow> Inl DrawsExhausted
                   | u # rs2 \<Rightarrow>
                       (case choice u (roots M) of
                          Inl x \<Rightarrow> Inl x
                        | Inr root_edge \<Rightarrow>
                            spawn_pulses M hsv_to_rgb rs2
                              (L\<lparr>pulses := (pulses L)[i := Some (Impulse_init c root_edge Out)]\<rparr>)))))
      else Inr (L, rs))"
  by pat_completeness auto
termination
  by (relation "measure (\<lambda>(M, h, rs, L). length rs)")
     (auto simp: spawn_color_def split: if_splits list.splits)

text \<open>The loop \<^verbatim>\<open>for pulse in self.pulses: if pulse: pulse.move(model, params)\<close>.\<close>

fun move_all :: "model \<Rightarrow> real list \<Rightarrow> impulse option list \<Rightarrow> error + (impulse option list \<times> real list)" where
  "move_all M rs [] = Inr ([], rs)"
| "move_all M rs (None # ps) =
     (case move_all M rs ps of
        Inl x \<Rightarrow> Inl x
      | Inr (ps', rs') \<Rightarrow> Inr (None # ps', rs'))"
| "move_all M rs (Some p # ps) =
     (case Impulse_move M rs p of
        Inl x \<Rightarrow> Inl x
      | Inr (p', rs1) \<Rightarrow>
          (case move_all M rs1 ps of
             Inl x \<Rightarrow> Inl x
           | Inr (ps', rs') \<Rightarrow> Inr (Some p' # ps', rs')))"

text \<open>\<^verbatim>\<open>_move_pulses\<close>; \<open>time\<close> is \<^verbatim>\<open>params.time\<close>.\<close>

definition move_pulses ::
  "model \<Rightarrow> (real \<Rightarrow> real \<Rightarrow> real \<Rightarrow> real list) \<Rightarrow> real \<Rightarrow> real list \<Rightarrow> impulse_layer
     \<Rightarrow> error + (impulse_layer \<times> real list)" where
  "move_pulses M hsv_to_rgb time rs L =
     (if \<not> truthy (last_time L) then Inr (L\<lparr>last_time := Some time\<rparr>, rs)
      else if time < the (last_time L) + frequency L then Inr (L, rs)
      else
        (case spawn_pulses M hsv_to_rgb rs (reap_pulses L) of
           Inl x \<Rightarrow> Inl x
         | Inr (L1, rs1) \<Rightarrow>
             (case move_all M rs1 (pulses L1) of
                Inl x \<Rightarrow> Inl x
              | Inr (ps, rs2) \<Rightarrow> Inr (L1\<lparr>last_time := Some time, pulses := ps\<rparr>, rs2))))"

fun render_all :: "impulse option list \<Rightarrow> frame \<Rightarrow> error + frame" where
  "render_all [] fr = Inr fr"
| "render_all (None # ps) fr = render_all ps fr"
| "render_all (Some p # ps) fr =
     (case Impulse_render p fr of
        Inl x \<Rightarrow> Inl x
      | Inr fr' \<Rightarrow> render_all ps fr')"

definition ImpulseLayer2_render ::
  "model \<Rightarrow> (real \<Rightarrow> real \<Rightarrow> real \<Rightarrow> real list) \<Rightarrow> real \<Rightarrow> real list \<Rightarrow> impulse_layer \<Rightarrow> frame
     \<Rightarrow> error + (impulse_layer \<times> frame \<times> real list)" where
  "ImpulseLayer2_render M hsv_to_rgb time rs L fr =
     (case move_pulses M hsv_to_rgb time rs L of
        Inl x \<Rightarrow> Inl x
      | Inr (L', rs') \<Rightarrow>
          (case render_all (pulses L') fr of
             Inl x \<Rightarrow> Inl x
           | Inr fr' \<Rightarrow> Inr (L', fr', rs')))"

section \<open>Bolt and LightningStormLayer\<close>

definition PULSE_INTENSITY :: real where "PULSE_INTENSITY = 0.08"
definition PULSE_FREQUENCY :: real where "PULSE_FREQUENCY = 10"
definition FADE_TIME :: real where "FADE_TIME = 0.25"
definition SECONDARY_BRANCH_INTENSITY :: real where "SECONDARY_BRANCH_INTENSITY = 0.4"

definition leader_intensity :: real where
  "leader_intensity = 1.0 - PULSE_INTENSITY"

definition branch_intensity :: real where
  "branch_intensity = leader_intensity * SECONDARY_BRANCH_INTENSITY"

record bolt =
  init_time :: real
  pulse_time :: real
  bolt_color :: "real list"
  life_time :: real
  bolt_edges :: "nat list"
  intensities :: "real list"

text \<open>
  The \<^verbatim>\<open>while model.outwardAdjacency[leader]\<close> loop of \<^verbatim>\<open>choose_random_path\<close>:
  one draw per round, for the choice of the next leader.
\<close>

fun extend_path ::
  "model \<Rightarrow> real list \<Rightarrow> nat \<Rightarrow> nat list \<Rightarrow> real list \<Rightarrow> error + ((nat list \<times> real list) \<times> real list)" where
  "extend_path M rs leader es ints =
     (if outwardAdjacency M leader \<noteq> [] then
        (case rs of
           [] \<Rightarrow> Inl DrawsExhausted
         | u # rs' \<Rightarrow>
             (case choice u (outwardAdjacency M leader) of
                Inl x \<Rightarrow> Inl x
              | Inr next_leader \<Rightarrow>
                  extend_path M rs' next_leader
                    (es @ outwardAdjacency M leader)
                    (ints @ map (\<lambda>e. if e = next_leader then leader_intensity
                                        else branch_intensity)
                              (outwardAdjacency M leader))))
      else Inr ((es, ints), rs))"

definition choose_random_path ::
  "model \<Rightarrow> real list \<Rightarrow> error + ((nat list \<times> real list) \<times> real list)" where
  "choose_random_path M rs =
     (case rs of
        [] \<Rightarrow> Inl DrawsExhausted
      | u # rs' \<Rightarrow>
          (case choice u (roots M) of
             Inl x \<Rightarrow> Inl x
           | Inr root_edge \<Rightarrow> extend_path M rs' root_edge [root_edge] [leader_intensity]))"

definition Bolt_init :: "model \<Rightarrow> real \<Rightarrow> real list \<Rightarrow> error + (bolt \<times> real list)" where
  "Bolt_init M t rs =
     (case rs of
        [] \<Rightarrow> Inl DrawsExhausted
      | u # rs' \<Rightarrow>
          (let pt = uniform u 0.25 0.35 in
           case choose_random_path M rs' of
             Inl x \<Rightarrow> Inl x
           | Inr ((es, ints), rs'') \<Rightarrow>
               Inr (\<lparr>init_time = t, pulse_time = pt,
                     bolt_color = map (\<lambda>v. v / 255.0) [230, 230, 255],
                     life_time = pt + FADE_TIME,
                     bolt_edges = es, intensities = ints\<rparr>, rs'')))"

text \<open>
  \<^verbatim>\<open>mixAdd(frame[edge], *cs)\<close>: the call needs exactly three components after the
  frame row.
\<close>

definition mixAdd_at :: "frame \<Rightarrow> nat \<Rightarrow> real list \<Rightarrow> error + frame" where
  "mixAdd_at fr e cs =
     (if e < length fr then
        (case cs of
           [r, g, b] \<Rightarrow>
             (case mixAdd (fr ! e) r g b of
                Inl x \<Rightarrow> Inl x
              | Inr rgb \<Rightarrow> Inr (fr[e := rgb]))
         | _ \<Rightarrow> Inl TypeError)
      else Inl IndexError)"

text \<open>
  The loop \<^verbatim>\<open>for i, edge in enumerate(self.edges)\<close> of \<^verbatim>\<open>update_frame\<close>; \<open>k\<close>
  maps the edge's stored intensity to the factor of the colour.
\<close>

fun update_edges :: "bolt \<Rightarrow> (real \<Rightarrow> real) \<Rightarrow> nat \<Rightarrow> nat list \<Rightarrow> frame \<Rightarrow> error + frame" where
  "update_edges b k i [] fr = Inr fr"
| "update_edges b k i (e # es) fr =
     (if i < length (intensities b) then
        (case mixAdd_at fr e (map (\<lambda>c. c * k (intensities b ! i)) (bolt_color b)) of
           Inl x \<Rightarrow> Inl x
         | Inr fr' \<Rightarrow> update_edges b k (i + 1) es fr')
      else Inl IndexError)"

definition update_frame :: "bolt \<Rightarrow> frame \<Rightarrow> real \<Rightarrow> error + frame" where
  "update_frame b fr current_time =
     (let dt = current_time - init_time b in
      if dt < pulse_time b then
        (let phase = cos (2 * pi * dt * PULSE_FREQUENCY) in
         update_edges b (\<lambda>x. x + phase * PULSE_INTENSITY) 0 (bolt_edges b) fr)
      else
        (let fade = 1 - (dt - pulse_time b) * 1.0 / FADE_TIME in
         update_edges b (\<lambda>x. fade * x) 0 (bolt_edges b) fr))"

record storm_layer =
  bolts :: "bolt list"
  bolt_every :: real
  storm_last_time :: "real option"

definition LightningStormLayer_init :: "real \<Rightarrow> storm_layer" where
  "LightningStormLayer_init every = \<lparr>bolts = [], bolt_every = every, storm_last_time = None\<rparr>"

fun update_all :: "bolt list \<Rightarrow> frame \<Rightarrow> real \<Rightarrow> error + frame" where
  "update_all [] fr t = Inr fr"
| "update_all (b # bs) fr t =
     (case update_frame b fr t of
        Inl x \<Rightarrow> Inl x
      | Inr fr' \<Rightarrow> update_all bs fr' t)"

text \<open>
  The first half of \<^verbatim>\<open>LightningStormLayer.render\<close>: the clock is initialised, the
  expired bolts are dropped, one draw decides the strike, the clock is stored.
  The quotient is computed before the draw, so a zero \<^verbatim>\<open>bolt_every\<close> is a
  ZeroDivisionError.
\<close>

definition purge :: "real \<Rightarrow> bolt list \<Rightarrow> bolt list" where
  "purge time bs = filter (\<lambda>b. init_time b + life_time b > time) bs"

definition strike ::
  "model \<Rightarrow> real \<Rightarrow> real list \<Rightarrow> storm_layer \<Rightarrow> error + (storm_layer \<times> real list)" where
  "strike M time rs L =
     (let last = (if \<not> truthy (storm_last_time L) then time else the (storm_last_time L));
          kept = purge time (bolts L)
      in if bolt_every L = 0 then Inl ZeroDivisionError
         else
           (case rs of
              [] \<Rightarrow> Inl DrawsExhausted
            | r # rs' \<Rightarrow>
                (if (time - last) / bolt_every L > r then
                   (case Bolt_init M time rs' of
                      Inl x \<Rightarrow> Inl x
                    | Inr (b, rs'') \<Rightarrow>
                        Inr (L\<lparr>bolts := kept @ [b], storm_last_time := Some time\<rparr>, rs''))
                 else Inr (L\<lparr>bolts := kept, storm_last_time := Some time\<rparr>, rs'))))"

definition LightningStormLayer_render ::
  "model \<Rightarrow> real \<Rightarrow> real list \<Rightarrow> storm_layer \<Rightarrow> frame \<Rightarrow> error + (storm_layer \<times> frame \<times> real list)" where
  "LightningStormLayer_render M time rs L fr =
     (case strike M time rs L of
        Inl x \<Rightarrow> Inl x
      | Inr (L', rs') \<Rightarrow>
          (case update_all (bolts L') fr time of
             Inl x \<Rightarrow> Inl x
           | Inr fr' \<Rightarrow> Inr (L', fr', rs')))"

section \<open>FireflySwarm.Firefly\<close>


record firefly =
  offset :: real
  fly_edge :: nat
  fly_color :: "real list"
  blinktime :: real







section \<open>Predicates used in the statements\<close>

text \<open>
  What \<^verbatim>\<open>_spawn_pulses\<close> may do to one slot: leave it as it is, or fill an empty
  slot with an impulse fresh from the constructor.
\<close>

definition spawned_or_kept :: "impulse option \<Rightarrow> impulse option \<Rightarrow> bool" where
  "spawned_or_kept old new =
     (new = old \<or>
      (old = None \<and>
       (case new of
          None \<Rightarrow> False
        | Some p \<Rightarrow> p = Impulse_init (color p) (edge p) Out)))"

text \<open>
  What the loop over the pulses does to one slot: an empty slot stays empty, an
  impulse is replaced by what \<^verbatim>\<open>move\<close> makes of it on some draws.
\<close>

definition moved_from :: "model \<Rightarrow> impulse option \<Rightarrow> impulse option \<Rightarrow> bool" where
  "moved_from M old new =
     (case old of
        None \<Rightarrow> new = None
      | Some p \<Rightarrow> (\<exists>qs qs' q'. new = Some q' \<and> Impulse_move M qs p = Inr (q', qs')))"

text \<open>
  The bolt path in the words of the specification, for a chain of leaders
  \<open>l\<^sub>0, l\<^sub>1, \<dots>\<close>: every expansion of a leader appends all its outward-adjacent
  edges, the next leader at full intensity and every other one at the secondary
  intensity; each leader after the first is an outward-adjacent edge of the one
  before, and the chain ends at the first leader with no outward-adjacent edge.
\<close>

fun expansions :: "model \<Rightarrow> nat list \<Rightarrow> nat list \<times> real list" where
  "expansions M (l # next_leader # ls) =
     (outwardAdjacency M l @ fst (expansions M (next_leader # ls)),
      map (\<lambda>e. if e = next_leader then leader_intensity else branch_intensity)
          (outwardAdjacency M l)
        @ snd (expansions M (next_leader # ls)))"
| "expansions M ls = ([], [])"

fun leader_chain :: "model \<Rightarrow> nat list \<Rightarrow> bool" where
  "leader_chain M [] = False"
| "leader_chain M [l] = (outwardAdjacency M l = [])"
| "leader_chain M (l # next_leader # ls) =
     (next_leader \<in> set (outwardAdjacency M l) \<and> leader_chain M (next_leader # ls))"

section \<open>Example inputs\<close>

text \<open>
  A model with one root edge 0 (height 0, between the nodes 0 and 1) and one outward
  child edge 1 (height 1, between the nodes 1 and 2).
\<close>

definition chain_model :: model where
  "chain_model =
     \<lparr>edges = (\<lambda>e. [e, e + 1]), edgeHeight = int,
      edgeListForNodes = (\<lambda>n. if n = 0 then [0] else if n = 1 then [0, 1]
                                else if n = 2 then [1] else []),
      addressForEdge = (\<lambda>e. []), addressMatchesAnyP = (\<lambda>a ps. False), roots = [0],
      outwardAdjacency = (\<lambda>e. if e = 0 then [1] else [])\<rparr>"

text \<open>An impulse on the top edge of that model, with bounce probability 0.\<close>

definition stuck :: impulse where
  "stuck = (Impulse_init [1, 1, 1] 1 Out)\<lparr>bounceChance := 0\<rparr>"

text \<open>
  A model whose root edge 0 forks into the edges 1 and 2, with edge 3 beyond edge 2.
\<close>

definition fork_model :: model where
  "fork_model =
     \<lparr>edges = (\<lambda>e. [e, e + 1]), edgeHeight = int, edgeListForNodes = (\<lambda>n. []),
      addressForEdge = (\<lambda>e. []), addressMatchesAnyP = (\<lambda>a ps. False), roots = [0],
      outwardAdjacency = (\<lambda>e. if e = 0 then [1, 2] else if e = 2 then [3] else [])\<rparr>"

text \<open>
  A model with the edge 0 at height 3 and, beyond it, the edges 1 and 2 at height 4;
  every address matches every pattern.
\<close>

definition plateau_model :: model where
  "plateau_model =
     \<lparr>edges = (\<lambda>e. [e, e + 1]), edgeHeight = (\<lambda>e. if e = 0 then 3 else 4),
      edgeListForNodes = (\<lambda>n. if n = 0 then [0] else if n = 1 then [0, 1]
                                else if n = 2 then [1, 2] else if n = 3 then [2] else []),
      addressForEdge = (\<lambda>e. []), addressMatchesAnyP = (\<lambda>a ps. True), roots = [0],
      outwardAdjacency = (\<lambda>e. if e = 0 then [1] else if e = 1 then [2] else [])\<rparr>"

text \<open>
  An impulse in mode Out that has come from edge 0 to edge 1 of that model, with
  bounce probability 0: no edge near it is higher.
\<close>

definition topped :: impulse where
  "topped = (Impulse_init [1, 1, 1] 1 Out)\<lparr>previous_edge := Some 0, bounceChance := 0\<rparr>"

text \<open>
  The bolt that the constructor builds on the chain model at time 0 when every draw
  is 0: pulse time 0.25, both edges at the leader intensity.
\<close>

definition chain_bolt :: bolt where
  "chain_bolt =
     \<lparr>init_time = 0, pulse_time = 1/4, bolt_color = [46/51, 46/51, 1], life_time = 1/2,
      bolt_edges = [0, 1], intensities = [leader_intensity, leader_intensity]\<rparr>"

declare trim_loop.simps [simp del]
declare extend_path.simps [simp del]

section \<open>HeadsetResponsiveEffectLayer: the first reading, fades and the window\<close>

lemma trim_loop_single: "trim_loop w [m] [t] (Suc 0) 0 = Inr ([m], [t])"
  by (simp add: trim_loop.simps)

text \<open>
  A pending fade to a target other than 0.0, on a tick without a new reading: the
  level is interpolated while less than a second has passed since the newest
  measurement, and the fade is committed from then on.
\<close>

lemma fade_interpolates:
  "\<not> new_reading eeg s \<Longrightarrow> fading_to s = Some f \<Longrightarrow> f \<noteq> 0 \<Longrightarrow>
   last_response_level s = Some l \<Longrightarrow> timestamps s = T # ts \<Longrightarrow> now - T < 1 \<Longrightarrow>
   render now eeg s = Inr (Some ((now - T) * f + (1 - (now - T)) * l), s)"
  by (simp add: render_def Let_def)

lemma fade_commits:
  "\<not> new_reading eeg s \<Longrightarrow> fading_to s = Some f \<Longrightarrow> f \<noteq> 0 \<Longrightarrow>
   timestamps s = T # ts \<Longrightarrow> 1 \<le> now - T \<Longrightarrow>
   render now eeg s = Inr (Some f, s\<lparr>last_response_level := Some f, fading_to := None\<rparr>)"
  by (simp add: render_def end_fade_def Let_def)

text \<open>
  Claim C1 says that a layer with no history and no steady value hands the first
  ``on'' reading to \<^verbatim>\<open>render_responsive\<close> on the tick it arrives. The code does not:
  the reading is stored, but \<^verbatim>\<open>start_fade\<close> is called only when more than one
  measurement is in the window, so the level of that tick is None. The class
  docstring promises None only while no value has been read.
\<close>

theorem first_reading_emits_None:
  "render now (Some (e\<lparr>on := True\<rparr>)) (HeadsetResponsiveEffectLayer_init f w) =
     Inr (None, (HeadsetResponsiveEffectLayer_init f w)
                  \<lparr>measurements := [getattr e f], timestamps := [now],
                   last_eeg := Some (e\<lparr>on := True\<rparr>)\<rparr>)"
  by (cases f) (simp_all add: render_def new_reading_def HeadsetResponsiveEffectLayer_init_def
        trim_loop_single Let_def)

text \<open>
  Claim C2 says that every fade in progress is interpolated linearly and committed
  one second after the newest measurement. A fade whose target is 0.0 is not: the
  test \<^verbatim>\<open>elif self.fading_to\<close> reads the target 0.0 as ``no fade''. In the run below
  (window 5 s) the readings at 0 s and 1 s settle the level 1/2, the zero readings at
  10 s and 20 s start fades to 1/4 and then to 0; the ticks at 20.5 s and 21.5 s get
  None instead of 1/8 and of the committed 0, and the fade stays pending.
\<close>

theorem fade_to_zero_is_dropped:
  "render_ticks
     [(0, Some \<lparr>ident = 1, attention = 1/2, meditation = 0, on = True\<rparr>),
      (1, Some \<lparr>ident = 2, attention = 1/2, meditation = 0, on = True\<rparr>),
      (10, Some \<lparr>ident = 3, attention = 0, meditation = 0, on = True\<rparr>),
      (20, Some \<lparr>ident = 4, attention = 0, meditation = 0, on = True\<rparr>),
      (20.5, Some \<lparr>ident = 4, attention = 0, meditation = 0, on = True\<rparr>),
      (21.5, Some \<lparr>ident = 4, attention = 0, meditation = 0, on = True\<rparr>)]
     (HeadsetResponsiveEffectLayer_init Attention 5)
   = Inr ([None, Some (1/2), Some (1/2), Some (1/4), None, None],
          \<lparr>respond_to = Attention, smooth_response_over_n_secs = 5,
           measurements = [0, 0], timestamps = [20, 10],
           last_eeg = Some \<lparr>ident = 4, attention = 0, meditation = 0, on = True\<rparr>,
           last_response_level = Some (1/4), fading_to = Some 0\<rparr>)"
  by (simp add: render_def new_reading_def HeadsetResponsiveEffectLayer_init_def
        start_fade_def end_fade_def trim_loop.simps)

text \<open>
  Claim C3 says that a measurement older than the window stops counting in the mean
  after the first tick on which it is found expired. The slice \<^verbatim>\<open>[:(idx + 1)]\<close>
  keeps the newest expired measurement, and keeps it on every later tick until a
  younger measurement expires too. In the run below (window 5 s) the reading of 0 s
  is 10 s old at the tick of 10 s and still in the list, and in the mean
  (0 + 0 + 1) / 3, at the tick of 11 s.
\<close>

theorem expired_sample_stays_in_mean:
  "render_ticks
     [(0, Some \<lparr>ident = 1, attention = 1, meditation = 0, on = True\<rparr>),
      (10, Some \<lparr>ident = 2, attention = 0, meditation = 0, on = True\<rparr>),
      (11, Some \<lparr>ident = 3, attention = 0, meditation = 0, on = True\<rparr>)]
     (HeadsetResponsiveEffectLayer_init Attention 5)
   = Inr ([None, Some (1/2), Some (1/2)],
          \<lparr>respond_to = Attention, smooth_response_over_n_secs = 5,
           measurements = [0, 0, 1], timestamps = [11, 10, 0],
           last_eeg = Some \<lparr>ident = 3, attention = 0, meditation = 0, on = True\<rparr>,
           last_response_level = Some (1/2), fading_to = Some (1/3)\<rparr>)"
  by (simp add: render_def new_reading_def HeadsetResponsiveEffectLayer_init_def
        start_fade_def end_fade_def trim_loop.simps)

section \<open>ImpulseLayer2: the constructor and spawning\<close>

lemma first_emptyD: "first_empty ps = Some i \<Longrightarrow> i < length ps \<and> ps ! i = None"
proof (induction ps arbitrary: i)
  case Nil
  then show ?case by simp
next
  case (Cons p ps)
  then show ?case by (cases p) auto
qed

lemma spawn_pulses_slots:
  "spawn_pulses M h rs L = Inr (L', rs') \<Longrightarrow>
   list_all2 spawned_or_kept (pulses L) (pulses L')"
proof (induction M h rs L arbitrary: L' rs' rule: spawn_pulses.induct)
  case (1 M h L)
  then show ?case by simp
next
  case (2 M h r rs L)
  show ?case
  proof (cases "r < spawnChance L")
    case False
    with 2(2) show ?thesis by (auto simp: list_all2_same spawned_or_kept_def)
  next
    case True
    show ?thesis
    proof (cases "first_empty (pulses L)")
      case None
      with True 2(2) show ?thesis by (auto simp: list_all2_same spawned_or_kept_def)
    next
      case (Some i)
      from True Some 2(2) obtain c rs1 u rs2 re where
        sc: "spawn_color h L rs = Inr (c, rs1)" and rs1: "rs1 = u # rs2"
        and ch: "choice u (roots M) = Inr re"
        and rec: "spawn_pulses M h rs2
                    (L\<lparr>pulses := (pulses L)[i := Some (Impulse_init c re Out)]\<rparr>) = Inr (L', rs')"
        by (auto split: sum.splits list.splits prod.splits)
      from "2.IH"[OF True Some sc refl rs1 ch rec]
      have all: "list_all2 spawned_or_kept ((pulses L)[i := Some (Impulse_init c re Out)]) (pulses L')"
        by simp
      from first_emptyD[OF Some] have i: "i < length (pulses L)" "pulses L ! i = None"
        by simp_all
      show "list_all2 spawned_or_kept (pulses L) (pulses L')"
        unfolding list_all2_conv_all_nth
      proof (intro conjI allI impI)
        show "length (pulses L) = length (pulses L')"
          using all by (simp add: list_all2_conv_all_nth)
        fix j assume j: "j < length (pulses L)"
        from all j
        have fk: "spawned_or_kept ((pulses L)[i := Some (Impulse_init c re Out)] ! j) (pulses L' ! j)"
          by (simp add: list_all2_conv_all_nth)
        show "spawned_or_kept (pulses L ! j) (pulses L' ! j)"
        proof (cases "j = i")
          case True
          with fk i j show ?thesis
            by (auto simp: spawned_or_kept_def Impulse_init_def split: option.splits)
        next
          case False
          with fk j show ?thesis by simp
        qed
      qed
    qed
  qed
qed

text \<open>
  Claim C10: the constructor of \<^verbatim>\<open>Impulse\<close> ignores its \<^verbatim>\<open>motion\<close> argument: whatever
  is passed, the new impulse is in mode Out, and two calls that differ only in that
  argument build the same impulse. So every slot that \<^verbatim>\<open>_spawn_pulses\<close> fills holds
  an impulse as the constructor leaves it, in mode Out, and every other slot is left
  as it was.
\<close>

theorem Impulse_init_ignores_motion:
  "motion (Impulse_init c e m) = Out \<and>
   Impulse_init c e m = Impulse_init c e m' \<and>
   (spawn_pulses M h rs L = Inr (L', rs') \<longrightarrow>
      list_all2 spawned_or_kept (pulses L) (pulses L'))"
  by (simp add: Impulse_init_def spawn_pulses_slots)

theorem Impulse_init_ignores_motion_witness:
  "spawn_pulses
     \<lparr>edges = (\<lambda>e. [e, e + 1]), edgeHeight = int, edgeListForNodes = (\<lambda>n. [n]),
      addressForEdge = (\<lambda>e. []), addressMatchesAnyP = (\<lambda>a ps. False), roots = [0],
      outwardAdjacency = (\<lambda>e. [])\<rparr>
     (\<lambda>h s v. [v, v, v]) [1/10, 3/10, 1/2, 0, 9/10] (ImpulseLayer2_init 2)
   = Inr ((ImpulseLayer2_init 2)\<lparr>pulses := [Some (Impulse_init [95/100, 95/100, 95/100] 0 In), None]\<rparr>, [])
   \<and> motion (Impulse_init [95/100, 95/100, 95/100] 0 In) = Out
   \<and> list_all2 spawned_or_kept (pulses (ImpulseLayer2_init 2))
        [Some (Impulse_init [95/100, 95/100, 95/100] 0 In), None]"
proof -
  let ?M = "\<lparr>edges = (\<lambda>e. [e, e + 1]), edgeHeight = int, edgeListForNodes = (\<lambda>n. [n]),
      addressForEdge = (\<lambda>e. []), addressMatchesAnyP = (\<lambda>a ps. False), roots = [0::nat],
      outwardAdjacency = (\<lambda>e. [])\<rparr>"
  let ?L' = "(ImpulseLayer2_init 2)\<lparr>pulses := [Some (Impulse_init [95/100, 95/100, 95/100] 0 In), None]\<rparr>"
  have run: "spawn_pulses ?M (\<lambda>h s v. [v, v, v]) [1/10, 3/10, 1/2, 0, 9/10] (ImpulseLayer2_init 2)
             = Inr (?L', [])"
    by (simp add: ImpulseLayer2_init_def spawn_color_def choice_def py_index_def py_int_def
          Impulse_init_def numeral_2_eq_2)
  from Impulse_init_ignores_motion[of "[95/100, 95/100, 95/100]" 0 In In ?M "\<lambda>h s v. [v, v, v]"
         "[1/10, 3/10, 1/2, 0, 9/10]" "ImpulseLayer2_init 2" ?L' "[]"] run
  show ?thesis by simp
qed

section \<open>ImpulseLayer2: movement\<close>

lemma py_index_in_set: "py_index xs i = Inr x \<Longrightarrow> x \<in> set xs"
  by (auto simp: py_index_def split: if_splits)

lemma choice_in_set: "choice u xs = Inr x \<Longrightarrow> x \<in> set xs"
  unfolding choice_def by (rule py_index_in_set)

lemma switch_step_edge [simp]: "edge (switch_step M r p) = edge p"
  by (simp add: switch_step_def)

lemma to_edges_Out:
  "motion p = Out \<Longrightarrow> to_edges M p = Inr es \<Longrightarrow> e \<in> set es \<Longrightarrow>
   edgeHeight M e > edgeHeight M (edge p)"
  by (auto simp: to_edges_def Let_def)

lemma to_edges_In:
  "motion p = In \<Longrightarrow> to_edges M p = Inr es \<Longrightarrow> e \<in> set es \<Longrightarrow>
   edgeHeight M e < edgeHeight M (edge p)"
  by (auto simp: to_edges_def Let_def)

lemma to_edges_not_self:
  "to_edges M p = Inr es \<Longrightarrow> e \<in> set es \<Longrightarrow> e \<noteq> edge p"
  by (cases "motion p") (auto simp: to_edges_def Let_def split: sum.splits prod.splits)

lemma Impulse_move_cases:
  "Impulse_move M rs p = Inr (p', rs') \<Longrightarrow>
   (edge p' = edge p \<and> dead p') \<or>
   (previous_edge p' = Some (edge p) \<and> edge p' \<noteq> edge p \<and> dead p' = dead p \<and>
    (motion p' = Out \<longrightarrow> edgeHeight M (edge p') > edgeHeight M (edge p)) \<and>
    (motion p' = In \<longrightarrow> edgeHeight M (edge p') < edgeHeight M (edge p)))"
proof (induction M rs p arbitrary: p' rs' rule: Impulse_move.induct)
  case (1 M r1 r2 rs p)
  let ?p1 = "switch_step M r1 p"
  have e1: "edge ?p1 = edge p" and d1: "dead ?p1 = dead p" by (simp_all add: switch_step_def)
  from "1.prems" obtain es where es: "to_edges M ?p1 = Inr es"
    by (auto simp: Let_def split: sum.splits)
  show ?case
  proof (cases "es \<noteq> []")
    case True
    with "1.prems" es obtain e where ch: "choice r2 es = Inr e"
      and p': "p' = ?p1\<lparr>previous_edge := Some (edge ?p1), edge := e\<rparr>"
      by (auto simp: Let_def move_to_any_of_def split: sum.splits)
    from ch have mem: "e \<in> set es" by (rule choice_in_set)
    have "motion p' = motion ?p1" using p' by simp
    with to_edges_Out[OF _ es mem] to_edges_In[OF _ es mem] to_edges_not_self[OF es mem] p' e1 d1
    show ?thesis by auto
  next
    case False
    hence nil: "es = []" by simp
    show ?thesis
    proof (cases "r2 < bounceChance ?p1")
      case nb: False
      with "1.prems" es nil have "p' = ?p1\<lparr>dead := True\<rparr>"
        by (auto simp: Let_def)
      with e1 show ?thesis by simp
    next
      case b: True
      show ?thesis
      proof (cases "motion ?p1")
        case Out
        with "1.prems" es nil b have "Impulse_move M rs (?p1\<lparr>motion := In\<rparr>) = Inr (p', rs')"
          by (auto simp: Let_def)
        from "1.IH"(1)[OF refl es False b Out this] e1 d1
        show ?thesis by auto
      next
        case In
        with "1.prems" es nil b have "Impulse_move M rs (?p1\<lparr>motion := Out\<rparr>) = Inr (p', rs')"
          by (auto simp: Let_def)
        from "1.IH"(2)[OF refl es False b In this] e1 d1
        show ?thesis by auto
      next
        case Loop
        with "1.prems" es nil b have "p' = ?p1\<lparr>dead := True\<rparr>"
          by (auto simp: Let_def)
        with e1 show ?thesis by simp
      qed
    qed
  qed
next
  case (2 M r1 p)
  then show ?case by (auto split: sum.splits)
next
  case (3 M p)
  then show ?case by simp
qed

lemma dead_end:
  "to_edges M (switch_step M r1 p) = Inr [] \<Longrightarrow> bounceChance p \<le> r2 \<Longrightarrow>
   Impulse_move M (r1 # r2 # rs) p = Inr ((switch_step M r1 p)\<lparr>dead := True\<rparr>, rs)"
  by (simp add: Let_def switch_step_def)

lemma render_dead: "dead q \<Longrightarrow> Impulse_render q fr = Inr fr"
  by (simp add: Impulse_render_def)

lemma reap_dead:
  "i < length (pulses L) \<Longrightarrow> is_dead (pulses L ! i) \<Longrightarrow> pulses (reap_pulses L) ! i = None"
  by (simp add: reap_pulses_def)

lemma reap_alive:
  "i < length (pulses L) \<Longrightarrow> \<not> is_dead (pulses L ! i) \<Longrightarrow> pulses (reap_pulses L) ! i = pulses L ! i"
  by (simp add: reap_pulses_def)

lemma move_all_slots:
  "move_all M rs ps = Inr (ps', rs') \<Longrightarrow> list_all2 (moved_from M) ps ps'"
proof (induction M rs ps arbitrary: ps' rs' rule: move_all.induct)
  case (1 M rs)
  then show ?case by simp
next
  case (2 M rs ps)
  then show ?case by (auto simp: moved_from_def split: sum.splits prod.splits)
next
  case (3 M rs p ps)
  from "3.prems" obtain p1 rs1 ps1 where
    mv: "Impulse_move M rs p = Inr (p1, rs1)" and
    rest: "move_all M rs1 ps = Inr (ps1, rs')" and ps': "ps' = Some p1 # ps1"
    by (auto split: sum.splits prod.splits)
  from "3.IH"[OF mv refl rest] have "list_all2 (moved_from M) ps ps1" .
  moreover have "moved_from M (Some p) (Some p1)"
    unfolding moved_from_def using mv by auto
  ultimately show ?case using ps' by simp
qed

lemma cycle_reaps:
  assumes t: "truthy (last_time L)" and due: "the (last_time L) + frequency L \<le> time"
    and run: "move_pulses M h time rs L = Inr (L', rs')"
    and i: "i < length (pulses L)" and d: "is_dead (pulses L ! i)"
  shows "pulses L' ! i = None \<or>
         (\<exists>c e qs qs' q'. pulses L' ! i = Some q' \<and>
             Impulse_move M qs (Impulse_init c e Out) = Inr (q', qs'))"
proof -
  from t due run obtain L1 rs1 ps where
    sp: "spawn_pulses M h rs (reap_pulses L) = Inr (L1, rs1)" and
    mv: "move_all M rs1 (pulses L1) = Inr (ps, rs')" and L': "pulses L' = ps"
    by (auto simp: move_pulses_def split: sum.splits prod.splits if_splits)
  have len: "length (pulses (reap_pulses L)) = length (pulses L)" by (simp add: reap_pulses_def)
  from spawn_pulses_slots[OF sp] i len reap_dead[OF i d]
  have a: "spawned_or_kept None (pulses L1 ! i)" and l1: "i < length (pulses L1)"
    by (auto simp: list_all2_conv_all_nth)
  from move_all_slots[OF mv] l1 have b: "moved_from M (pulses L1 ! i) (ps ! i)"
    by (auto simp: list_all2_conv_all_nth)
  show ?thesis
  proof (cases "pulses L1 ! i")
    case None
    with b L' show ?thesis by (simp add: moved_from_def)
  next
    case (Some q)
    with a have q: "q = Impulse_init (color q) (edge q) Out" by (simp add: spawned_or_kept_def)
    from b Some obtain qs qs' q' where
      new: "ps ! i = Some q'" and mvq: "Impulse_move M qs q = Inr (q', qs')"
      by (auto simp: moved_from_def)
    from mvq q have "Impulse_move M qs (Impulse_init (color q) (edge q) Out) = Inr (q', qs')"
      by simp
    with new L' show ?thesis by blast
  qed
qed

lemma move_chooses:
  assumes es: "to_edges M (switch_step M r1 p) = Inr es" and ne: "es \<noteq> []"
    and run: "Impulse_move M (r1 # r2 # rs0) p = Inr (p', rs')"
  shows "rs' = rs0 \<and> edge p' \<in> set es \<and> motion p' = motion (switch_step M r1 p)"
proof -
  from run es ne obtain e where ch: "choice r2 es = Inr e"
    and p': "p' = (switch_step M r1 p)\<lparr>previous_edge := Some (edge (switch_step M r1 p)), edge := e\<rparr>"
    and rs: "rs' = rs0"
    by (auto simp: Let_def move_to_any_of_def split: sum.splits)
  from ch have "e \<in> set es" by (rule choice_in_set)
  with p' rs show ?thesis by simp
qed

lemma switch_step_skip: "loopChance p \<le> r1 \<Longrightarrow> switch_step M r1 p = p"
  by (simp add: switch_step_def)

lemma bounce_Out:
  "to_edges M (switch_step M r1 p) = Inr [] \<Longrightarrow> r2 < bounceChance p \<Longrightarrow>
   motion (switch_step M r1 p) = Out \<Longrightarrow>
   Impulse_move M (r1 # r2 # rs) p = Impulse_move M rs ((switch_step M r1 p)\<lparr>motion := In\<rparr>)"
  by (simp add: Let_def switch_step_def split: if_splits)

lemma bounce_In:
  "to_edges M (switch_step M r1 p) = Inr [] \<Longrightarrow> r2 < bounceChance p \<Longrightarrow>
   motion (switch_step M r1 p) = In \<Longrightarrow>
   Impulse_move M (r1 # r2 # rs) p = Impulse_move M rs ((switch_step M r1 p)\<lparr>motion := Out\<rparr>)"
  by (simp add: Let_def switch_step_def split: if_splits)

text \<open>
  Claim C4, as stated, is about the mode the impulse is in when the step is taken.
  For that mode it fails: \<^verbatim>\<open>move\<close> may change the mode before it chooses the edge.
  Below, an impulse in mode Out on the top edge of the chain model finds no higher
  edge, bounces (the draw 0.1 is below \<^verbatim>\<open>bounceChance\<close>), is put in mode In and
  moves down to edge 0 in the same call of \<^verbatim>\<open>move\<close>.
\<close>

theorem Out_impulse_bounces_down:
  "Impulse_move chain_model [1/2, 1/10, 1/2, 3/10] (Impulse_init [1, 1, 1] 1 Out)
     = Inr ((Impulse_init [1, 1, 1] 1 Out)\<lparr>motion := In, previous_edge := Some 1, edge := 0\<rparr>, [])
   \<and> motion (Impulse_init [1, 1, 1] 1 Out) = Out
   \<and> edge (Impulse_init [1, 1, 1] 1 Out) = 1
   \<and> \<not> edgeHeight chain_model 1 < edgeHeight chain_model 0"
  by (simp add: chain_model_def Impulse_init_def switch_step_def to_edges_def
        move_to_any_of_def choice_def py_index_def py_int_def)

text \<open>
  Claim C4, amended: the mode that decides is the one in force when
  \<^verbatim>\<open>_move_to_any_of\<close> is called, after the \<^verbatim>\<open>loopChance\<close> switch and after any
  bounce of the step. Nothing changes the mode once the impulse has moved, so it is
  the mode the impulse has when \<^verbatim>\<open>move\<close> returns. For every call of \<^verbatim>\<open>move\<close> that
  returns: an impulse that stays on its edge has been marked dead; an impulse that
  has moved remembers the edge it left and, if the mode in force is Out, is on a
  strictly higher edge, if In, on a strictly lower one. When the switched mode has
  candidates (no bounce), the new edge is one of them, the mode in force is the
  switched mode and that mode decides. When moreover the switch draw is not below
  \<^verbatim>\<open>loopChance\<close>, the mode in force is the mode the impulse entered the step with,
  and the claim holds as it is written.
\<close>

theorem Impulse_move_respects_mode:
  "Impulse_move M rs p = Inr (p', rs') \<Longrightarrow>
   (edge p' = edge p \<longrightarrow> dead p') \<and>
   (edge p' \<noteq> edge p \<longrightarrow>
      previous_edge p' = Some (edge p) \<and>
      (motion p' = Out \<longrightarrow> edgeHeight M (edge p) < edgeHeight M (edge p')) \<and>
      (motion p' = In \<longrightarrow> edgeHeight M (edge p') < edgeHeight M (edge p))) \<and>
   (\<forall>r1 r2 rs0 es.
      rs = r1 # r2 # rs0 \<and> to_edges M (switch_step M r1 p) = Inr es \<and> es \<noteq> [] \<longrightarrow>
        edge p' \<in> set es \<and> motion p' = motion (switch_step M r1 p) \<and>
        (motion (switch_step M r1 p) = Out \<longrightarrow> edgeHeight M (edge p) < edgeHeight M (edge p')) \<and>
        (motion (switch_step M r1 p) = In \<longrightarrow> edgeHeight M (edge p') < edgeHeight M (edge p))) \<and>
   (\<forall>r1 r2 rs0 es.
      rs = r1 # r2 # rs0 \<and> loopChance p \<le> r1 \<and> to_edges M p = Inr es \<and> es \<noteq> [] \<longrightarrow>
        edge p' \<in> set es \<and> motion p' = motion p \<and>
        (motion p = Out \<longrightarrow> edgeHeight M (edge p) < edgeHeight M (edge p')) \<and>
        (motion p = In \<longrightarrow> edgeHeight M (edge p') < edgeHeight M (edge p)))"
proof -
  assume run: "Impulse_move M rs p = Inr (p', rs')"
  note c = Impulse_move_cases[OF run]
  have a: "edge p' = edge p \<longrightarrow> dead p'" using c by blast
  have b: "edge p' \<noteq> edge p \<longrightarrow>
      previous_edge p' = Some (edge p) \<and>
      (motion p' = Out \<longrightarrow> edgeHeight M (edge p) < edgeHeight M (edge p')) \<and>
      (motion p' = In \<longrightarrow> edgeHeight M (edge p') < edgeHeight M (edge p))" using c by blast
  have s: "edge p' \<in> set es \<and> motion p' = motion (switch_step M r1 p) \<and>
        (motion (switch_step M r1 p) = Out \<longrightarrow> edgeHeight M (edge p) < edgeHeight M (edge p')) \<and>
        (motion (switch_step M r1 p) = In \<longrightarrow> edgeHeight M (edge p') < edgeHeight M (edge p))"
    if h: "rs = r1 # r2 # rs0" "to_edges M (switch_step M r1 p) = Inr es" "es \<noteq> []"
    for r1 r2 rs0 es
  proof -
    from run h(1) have run': "Impulse_move M (r1 # r2 # rs0) p = Inr (p', rs')" by simp
    from move_chooses[OF h(2) h(3) run'] have m: "edge p' \<in> set es"
      "motion p' = motion (switch_step M r1 p)" by simp_all
    from to_edges_Out[OF _ h(2) m(1)] to_edges_In[OF _ h(2) m(1)] m show ?thesis by simp
  qed
  have d: "edge p' \<in> set es \<and> motion p' = motion p \<and>
        (motion p = Out \<longrightarrow> edgeHeight M (edge p) < edgeHeight M (edge p')) \<and>
        (motion p = In \<longrightarrow> edgeHeight M (edge p') < edgeHeight M (edge p))"
    if h: "rs = r1 # r2 # rs0" "loopChance p \<le> r1" "to_edges M p = Inr es" "es \<noteq> []"
    for r1 r2 rs0 es
    using s[of r1 r2 rs0 es] h by (simp add: switch_step_skip)
  from a b s d show ?thesis by blast
qed

text \<open>
  The theorem at two steps on the chain model without switch or bounce: an impulse in
  mode Out goes up from edge 0 to edge 1, an impulse in mode In goes down from edge 1
  to edge 0.
\<close>

theorem Impulse_move_respects_mode_witness:
  "Impulse_move chain_model [1/2, 3/10] (Impulse_init [1, 1, 1] 0 Out)
     = Inr ((Impulse_init [1, 1, 1] 0 Out)\<lparr>previous_edge := Some 0, edge := 1\<rparr>, [])
   \<and> loopChance (Impulse_init [1, 1, 1] 0 Out) \<le> 1/2
   \<and> to_edges chain_model (Impulse_init [1, 1, 1] 0 Out) = Inr [1]
   \<and> motion (Impulse_init [1, 1, 1] 0 Out) = Out
   \<and> edgeHeight chain_model 0 < edgeHeight chain_model 1
   \<and> Impulse_move chain_model [1/2, 3/10] ((Impulse_init [1, 1, 1] 1 Out)\<lparr>motion := In\<rparr>)
     = Inr ((Impulse_init [1, 1, 1] 1 Out)\<lparr>motion := In, previous_edge := Some 1, edge := 0\<rparr>, [])
   \<and> loopChance ((Impulse_init [1, 1, 1] 1 Out)\<lparr>motion := In\<rparr>) \<le> 1/2
   \<and> to_edges chain_model ((Impulse_init [1, 1, 1] 1 Out)\<lparr>motion := In\<rparr>) = Inr [0]
   \<and> motion ((Impulse_init [1, 1, 1] 1 Out)\<lparr>motion := In\<rparr>) = In
   \<and> edgeHeight chain_model 0 < edgeHeight chain_model 1"
proof -
  let ?up = "Impulse_init [1, 1, 1] 0 Out"
  let ?down = "(Impulse_init [1, 1, 1] 1 Out)\<lparr>motion := In\<rparr>"
  have up: "Impulse_move chain_model [1/2, 3/10] ?up
     = Inr (?up\<lparr>previous_edge := Some 0, edge := 1\<rparr>, [])"
    by (simp add: chain_model_def Impulse_init_def switch_step_def to_edges_def
          move_to_any_of_def choice_def py_index_def py_int_def)
  have down: "Impulse_move chain_model [1/2, 3/10] ?down
     = Inr (?down\<lparr>previous_edge := Some 1, edge := 0\<rparr>, [])"
    by (simp add: chain_model_def Impulse_init_def switch_step_def to_edges_def
          move_to_any_of_def choice_def py_index_def py_int_def)
  have lu: "loopChance ?up \<le> 1/2" and ld: "loopChance ?down \<le> 1/2"
    by (simp_all add: Impulse_init_def)
  have cu: "to_edges chain_model ?up = Inr [1]" and cd: "to_edges chain_model ?down = Inr [0]"
    by (simp_all add: chain_model_def Impulse_init_def to_edges_def)
  have mu: "motion ?up = Out" and md: "motion ?down = In"
    by (simp_all add: Impulse_init_def)
  from Impulse_move_respects_mode[OF up] lu cu mu
  have hu: "edgeHeight chain_model (edge ?up)
              < edgeHeight chain_model (edge (?up\<lparr>previous_edge := Some 0, edge := 1\<rparr>))"
    by blast
  from Impulse_move_respects_mode[OF down] ld cd md
  have hd: "edgeHeight chain_model (edge (?down\<lparr>previous_edge := Some 1, edge := 0\<rparr>))
              < edgeHeight chain_model (edge ?down)"
    by blast
  from hu have hu': "edgeHeight chain_model 0 < edgeHeight chain_model 1"
    by (simp add: Impulse_init_def)
  from up down lu ld cu cd mu md hu' show ?thesis by simp
qed

text \<open>
  Claim C5, as stated, is about an impulse with no candidate edge for the mode it is
  in. It fails when the step first switches the mode: below, an impulse in mode Out
  at height 4 with no higher edge near it and bounce probability 0 draws 0.05, below
  \<^verbatim>\<open>loopChance\<close>, is switched to mode Loop, moves on to edge 2 and stays alive.
\<close>

theorem switched_impulse_survives:
  "to_edges plateau_model topped = Inr [] \<and> motion topped = Out \<and> bounceChance topped = 0 \<and>
   Impulse_move plateau_model [1/20, 1/2] topped
     = Inr (topped\<lparr>motion := Loop, previous_edge := Some 1, edge := 2\<rparr>, []) \<and>
   \<not> dead (topped\<lparr>motion := Loop, previous_edge := Some 1, edge := 2\<rparr>)"
  by (simp add: plateau_model_def topped_def Impulse_init_def switch_step_def to_edges_def
        switch_motion_def node_incoming_and_outgoing_def
        move_to_any_of_def choice_def py_index_def py_int_def)

text \<open>
  Claim C5, amended: the candidates that count are those of the mode in force after
  the \<^verbatim>\<open>loopChance\<close> switch of the step; this is the mode the impulse is in whenever
  the switch draw is not below \<^verbatim>\<open>loopChance\<close>. When that candidate list is empty
  and the bounce draw is not below \<^verbatim>\<open>bounceChance\<close> (any draw, for a bounce
  probability of 0), that call of \<^verbatim>\<open>move\<close> marks the impulse dead and nothing else
  changes. Rendering a dead impulse returns the frame as it was. \<^verbatim>\<open>_reap_pulses\<close>
  empties every slot that holds a dead impulse, and the next call of
  \<^verbatim>\<open>_move_pulses\<close> that runs a cycle reaps before it spawns and moves: at its end
  the slot is empty or holds an impulse spawned in that cycle (built by the
  constructor and moved once).
\<close>

theorem dead_end_dies_and_is_reaped:
  "(to_edges M (switch_step M r1 p) = Inr [] \<and> bounceChance p \<le> r2 \<longrightarrow>
      Impulse_move M (r1 # r2 # rs) p = Inr ((switch_step M r1 p)\<lparr>dead := True\<rparr>, rs)) \<and>
   (loopChance p \<le> r1 \<and> to_edges M p = Inr [] \<and> bounceChance p \<le> r2 \<longrightarrow>
      Impulse_move M (r1 # r2 # rs) p = Inr (p\<lparr>dead := True\<rparr>, rs)) \<and>
   (dead q \<longrightarrow> Impulse_render q fr = Inr fr) \<and>
   (i < length (pulses L) \<and> is_dead (pulses L ! i) \<longrightarrow> pulses (reap_pulses L) ! i = None) \<and>
   (truthy (last_time L) \<and> the (last_time L) + frequency L \<le> time \<and>
    move_pulses M h time ds L = Inr (L', ds') \<and>
    i < length (pulses L) \<and> is_dead (pulses L ! i) \<longrightarrow>
      pulses L' ! i = None \<or>
      (\<exists>c e qs qs' q'. pulses L' ! i = Some q' \<and>
          Impulse_move M qs (Impulse_init c e Out) = Inr (q', qs')))"
proof -
  have "loopChance p \<le> r1 \<and> to_edges M p = Inr [] \<and> bounceChance p \<le> r2 \<longrightarrow>
      Impulse_move M (r1 # r2 # rs) p = Inr (p\<lparr>dead := True\<rparr>, rs)"
    using dead_end[of M r1 p r2 rs] by (simp add: switch_step_skip)
  with dead_end[of M r1 p r2 rs] render_dead[of q fr] reap_dead[of i L]
    cycle_reaps[of L time M h ds L' ds' i]
  show ?thesis by blast
qed

theorem dead_end_dies_and_is_reaped_witness:
  "loopChance stuck \<le> 1/2 \<and> to_edges chain_model stuck = Inr [] \<and> bounceChance stuck \<le> 0
   \<and> Impulse_move chain_model [1/2, 0] stuck = Inr (stuck\<lparr>dead := True\<rparr>, [])
   \<and> Impulse_render (stuck\<lparr>dead := True\<rparr>) [[0, 0, 0], [0, 0, 0]] = Inr [[0, 0, 0], [0, 0, 0]]
   \<and> pulses (reap_pulses ((ImpulseLayer2_init 1)\<lparr>pulses := [Some (stuck\<lparr>dead := True\<rparr>)]\<rparr>)) ! 0 = None
   \<and> move_pulses chain_model (\<lambda>h s v. [v, v, v]) 2 [9/10]
        ((ImpulseLayer2_init 1)\<lparr>pulses := [Some (stuck\<lparr>dead := True\<rparr>)], last_time := Some 1\<rparr>)
       = Inr ((ImpulseLayer2_init 1)\<lparr>pulses := [None], last_time := Some 2\<rparr>, [])"
proof -
  let ?L = "(ImpulseLayer2_init 1)\<lparr>pulses := [Some (stuck\<lparr>dead := True\<rparr>)], last_time := Some 1\<rparr>"
  let ?L' = "(ImpulseLayer2_init 1)\<lparr>pulses := [None], last_time := Some 2\<rparr>"
  have h0: "loopChance stuck \<le> 1/2" by (simp add: stuck_def Impulse_init_def)
  have sw: "switch_step chain_model (1/2) stuck = stuck"
    by (simp add: switch_step_def stuck_def Impulse_init_def)
  have h1: "to_edges chain_model stuck = Inr []"
    by (simp add: to_edges_def chain_model_def stuck_def Impulse_init_def)
  have h2: "bounceChance stuck \<le> 0" by (simp add: stuck_def)
  have h3: "dead (stuck\<lparr>dead := True\<rparr>)" by simp
  have h4: "(0::nat) < length (pulses ?L)" "is_dead (pulses ?L ! 0)"
    by (simp_all add: is_dead_def)
  have h5: "truthy (last_time ?L)" "the (last_time ?L) + frequency ?L \<le> 2"
    by (simp_all add: ImpulseLayer2_init_def)
  have run: "move_pulses chain_model (\<lambda>h s v. [v, v, v]) 2 [9/10] ?L = Inr (?L', [])"
    by (simp add: move_pulses_def ImpulseLayer2_init_def reap_pulses_def is_dead_def)
  from dead_end_dies_and_is_reaped[of chain_model "1/2" stuck 0 "[]" "stuck\<lparr>dead := True\<rparr>"
      "[[0, 0, 0], [0, 0, 0]]" 0 ?L 2 "\<lambda>h s v. [v, v, v]" "[9/10]" ?L' "[]"]
    h0 h1 h2 h3 h4 h5 run sw
  show ?thesis by (simp add: reap_pulses_def is_dead_def)
qed

section \<open>Bolt: the path\<close>

lemma extend_path_chain:
  "extend_path M rs leader es ints = Inr ((es', ints'), rs') \<Longrightarrow>
   \<exists>ls. leader_chain M (leader # ls) \<and>
        es' = es @ fst (expansions M (leader # ls)) \<and>
        ints' = ints @ snd (expansions M (leader # ls)) \<and>
        length rs = length ls + length rs'"
proof (induction M rs leader es ints arbitrary: es' ints' rs' rule: extend_path.induct)
  case (1 M rs leader es ints)
  show ?case
  proof (cases "outwardAdjacency M leader = []")
    case True
    with "1.prems" have "es' = es" "ints' = ints" "rs' = rs"
      by (simp_all add: extend_path.simps[of M rs leader es ints])
    with True show ?thesis by (intro exI[of _ "[]"]) simp
  next
    case False
    with "1.prems" obtain u rs1 nl where rs: "rs = u # rs1"
      and ch: "choice u (outwardAdjacency M leader) = Inr nl"
      and rec: "extend_path M rs1 nl (es @ outwardAdjacency M leader)
                  (ints @ map (\<lambda>e. if e = nl then leader_intensity else branch_intensity)
                            (outwardAdjacency M leader)) = Inr ((es', ints'), rs')"
      by (auto simp: extend_path.simps[of M rs leader es ints] split: list.splits sum.splits)
    from "1.IH"[OF False rs ch rec] obtain ls where
      c: "leader_chain M (nl # ls)" and
      e: "es' = (es @ outwardAdjacency M leader) @ fst (expansions M (nl # ls))" and
      i: "ints' = (ints @ map (\<lambda>e. if e = nl then leader_intensity else branch_intensity)
                            (outwardAdjacency M leader)) @ snd (expansions M (nl # ls))" and
      n: "length rs1 = length ls + length rs'"
      by blast
    from ch have "nl \<in> set (outwardAdjacency M leader)"
      by (auto simp: choice_def py_index_def split: if_splits)
    with c e i n rs show ?thesis
      by (intro exI[of _ "nl # ls"]) simp
  qed
qed

lemma strike_bolts:
  "strike M t ds L = Inr (L', ds') \<Longrightarrow>
   \<exists>new. bolts L' = purge t (bolts L) @ new \<and> length new \<le> 1"
  by (auto simp: strike_def Let_def split: if_splits list.splits sum.splits prod.splits)

lemma render_bolts:
  "LightningStormLayer_render M t ds L fr = Inr (L', fr', ds') \<Longrightarrow>
   \<exists>new. bolts L' = purge t (bolts L) @ new \<and> length new \<le> 1"
  by (auto simp: LightningStormLayer_render_def split: sum.splits prod.splits dest: strike_bolts)

lemma branch_dimmer: "0 < branch_intensity \<and> branch_intensity < leader_intensity"
  by (simp add: branch_intensity_def leader_intensity_def PULSE_INTENSITY_def
        SECONDARY_BRANCH_INTENSITY_def)

lemma choose_random_path_chain:
  assumes "choose_random_path M rs = Inr ((es, ints), rs')"
  shows "\<exists>root_edge ls. choice (hd rs) (roots M) = Inr root_edge \<and>
           leader_chain M (root_edge # ls) \<and>
           es = root_edge # fst (expansions M (root_edge # ls)) \<and>
           ints = leader_intensity # snd (expansions M (root_edge # ls))"
proof -
  from assms obtain u rs0 r where rs: "rs = u # rs0" and ch: "choice u (roots M) = Inr r"
    and ex: "extend_path M rs0 r [r] [leader_intensity] = Inr ((es, ints), rs')"
    by (auto simp: choose_random_path_def split: list.splits sum.splits)
  from extend_path_chain[OF ex] obtain ls where
    "leader_chain M (r # ls)" "es = [r] @ fst (expansions M (r # ls))"
    "ints = [leader_intensity] @ snd (expansions M (r # ls))" by blast
  with rs ch show ?thesis by auto
qed

lemma choice_interval:
  assumes k: "k < length xs" and lo: "real k \<le> u * real (length xs)"
    and hi: "u * real (length xs) < real k + 1"
  shows "choice u xs = Inr (xs ! k)"
proof -
  have "\<lfloor>u * real (length xs)\<rfloor> = int k"
    using lo hi by (intro floor_unique) simp_all
  moreover have "0 \<le> u * real (length xs)" using lo by (rule order_trans[rotated]) simp
  ultimately show ?thesis using k by (simp add: choice_def py_int_def py_index_def)
qed

lemma choice_total:
  assumes ne: "xs \<noteq> []" and u: "0 \<le> u" "u < 1"
  shows "\<exists>x. choice u xs = Inr x"
proof -
  let ?n = "real (length xs)"
  have n: "0 < ?n" using ne by simp
  have nn: "0 \<le> u * ?n" using u n by simp
  have lt: "u * ?n < ?n" using u n by simp
  from nn have f0: "0 \<le> \<lfloor>u * ?n\<rfloor>" by simp
  have "of_int \<lfloor>u * ?n\<rfloor> \<le> u * ?n" by (rule of_int_floor_le)
  with lt have "real_of_int \<lfloor>u * ?n\<rfloor> < ?n" by linarith
  hence f1: "\<lfloor>u * ?n\<rfloor> < int (length xs)" by linarith
  from nn f0 f1 show ?thesis by (simp add: choice_def py_int_def py_index_def)
qed

lemma extend_path_total:
  assumes rank: "\<forall>e. \<forall>e' \<in> set (outwardAdjacency M e). rank e' < (rank e :: nat)"
  shows "\<forall>u \<in> set rs. 0 \<le> u \<and> u < 1 \<Longrightarrow> rank leader \<le> length rs \<Longrightarrow>
         \<exists>out. extend_path M rs leader es ints = Inr out"
proof (induction rs arbitrary: leader es ints)
  case Nil
  hence "rank leader = 0" by simp
  with rank have "outwardAdjacency M leader = []"
    by (cases "outwardAdjacency M leader") (auto dest!: spec[of _ leader])
  thus ?case by (simp add: extend_path.simps[of M "[]" leader es ints])
next
  case (Cons u rs)
  show ?case
  proof (cases "outwardAdjacency M leader = []")
    case True
    thus ?thesis by (simp add: extend_path.simps[of M "u # rs" leader es ints])
  next
    case False
    from Cons.prems(1) have u: "0 \<le> u" "u < 1" by simp_all
    from choice_total[OF False u] obtain nl where
      ch: "choice u (outwardAdjacency M leader) = Inr nl" by blast
    hence "nl \<in> set (outwardAdjacency M leader)" by (rule choice_in_set)
    with rank have "rank nl < rank leader" by blast
    with Cons.prems(2) have r: "rank nl \<le> length rs" by simp
    from Cons.prems(1) have d: "\<forall>u \<in> set rs. 0 \<le> u \<and> u < 1" by simp
    from Cons.IH[OF d r] False ch show ?thesis
      by (simp add: extend_path.simps[of M "u # rs" leader es ints])
  qed
qed

lemma choose_random_path_total:
  assumes "roots M \<noteq> []" and "\<forall>e. \<forall>e' \<in> set (outwardAdjacency M e). rank e' < (rank e :: nat)"
    and "\<forall>u \<in> set rs. 0 \<le> u \<and> u < 1" and "\<forall>e \<in> set (roots M). rank e < length rs"
  shows "\<exists>out. choose_random_path M rs = Inr out"
proof (cases rs)
  case Nil
  with assms(1,4) show ?thesis by (cases "roots M") auto
next
  case (Cons u rs')
  with assms(3) have u: "0 \<le> u" "u < 1" and d: "\<forall>u \<in> set rs'. 0 \<le> u \<and> u < 1" by simp_all
  from choice_total[OF assms(1) u] obtain r where ch: "choice u (roots M) = Inr r" by blast
  hence "r \<in> set (roots M)" by (rule choice_in_set)
  with assms(4) Cons have "rank r \<le> length rs'" by auto
  from extend_path_total[OF assms(2) d this, of "[r]" "[leader_intensity]"] ch Cons
  show ?thesis by (simp add: choose_random_path_def)
qed

lemma one_full_intensity:
  assumes "next_leader \<in> set (outwardAdjacency M l)" "distinct (outwardAdjacency M l)"
  shows "length (filter (\<lambda>x. x = leader_intensity) (snd (expansions M [l, next_leader]))) = 1"
proof -
  have ne: "branch_intensity \<noteq> leader_intensity" using branch_dimmer by simp
  have "length (filter (\<lambda>e. e = next_leader) adj) = 1"
    if "next_leader \<in> set adj" "distinct adj" for adj :: "nat list"
    using that by (induction adj) (auto simp: filter_empty_conv)
  from this[OF assms] ne show ?thesis by (simp add: filter_map comp_def)
qed

text \<open>
  Claim C6: a path returned by \<^verbatim>\<open>choose_random_path\<close> starts at the root edge that
  \<^verbatim>\<open>random.choice\<close> takes from \<^verbatim>\<open>model.roots\<close> with the first draw, at full
  intensity. The choice is uniform in this sense: the root at position \<open>k\<close> of
  \<open>n\<close> roots is taken exactly for the draws from \<open>k / n\<close> up to \<open>(k + 1) / n\<close>,
  an interval of the same length for every position. The path is the path of a chain
  of leaders: each expansion appends the outward-adjacent edges of the leader, the
  chosen next leader at the leader intensity and every other one at the secondary
  intensity, which is lower (so, in a list without repetition, exactly one entry is
  at the leader intensity); the chain goes on while the leader has an
  outward-adjacent edge and ends at the first leader that has none. The construction
  does return when the adjacency goes down along a rank, every draw is in
  \<open>[0, 1)\<close> and there are more draws than the rank of any root. A render pass keeps
  the surviving bolts as they are (it only drops expired ones and appends at most one
  new bolt), and \<^verbatim>\<open>update_frame\<close> returns a frame only, so edges and intensities
  of a bolt never change.
\<close>

theorem choose_random_path_shape:
  "(choose_random_path M rs = Inr ((es, ints), rs') \<longrightarrow>
      (\<exists>root_edge ls. choice (hd rs) (roots M) = Inr root_edge \<and>
           leader_chain M (root_edge # ls) \<and>
           es = root_edge # fst (expansions M (root_edge # ls)) \<and>
           ints = leader_intensity # snd (expansions M (root_edge # ls)))) \<and>
   (k < length (roots M) \<and> real k \<le> u * real (length (roots M)) \<and>
    u * real (length (roots M)) < real k + 1 \<longrightarrow>
      choice u (roots M) = Inr (roots M ! k)) \<and>
   (next_leader \<in> set (outwardAdjacency M l) \<and> distinct (outwardAdjacency M l) \<longrightarrow>
      length (filter (\<lambda>x. x = leader_intensity) (snd (expansions M [l, next_leader]))) = 1) \<and>
   branch_intensity < leader_intensity \<and>
   (roots M \<noteq> [] \<and> (\<forall>e. \<forall>e' \<in> set (outwardAdjacency M e). rank e' < (rank e :: nat)) \<and>
    (\<forall>d \<in> set rs. 0 \<le> d \<and> d < 1) \<and> (\<forall>e \<in> set (roots M). rank e < length rs) \<longrightarrow>
      (\<exists>out. choose_random_path M rs = Inr out)) \<and>
   (LightningStormLayer_render M t ds L fr = Inr (L', fr', ds') \<longrightarrow>
      (\<exists>new. bolts L' = purge t (bolts L) @ new \<and> length new \<le> 1))"
  using choose_random_path_chain[of M rs es ints rs'] branch_dimmer
    render_bolts[of M t ds L fr L' fr' ds'] choice_interval[of k "roots M" u]
    one_full_intensity[of next_leader M l] choose_random_path_total[of M rank rs]
  by blast

text \<open>
  The theorem on the fork model: the draws 0, 0.6, 0 take the root 0, then the second
  of its two children, then the only child of that one.
\<close>

lemma fork_model_run: "choose_random_path fork_model [0, 6/10, 0]
     = Inr (([0, 1, 2, 3], [leader_intensity, branch_intensity, leader_intensity, leader_intensity]), [])"
  by (simp add: choose_random_path_def fork_model_def choice_def py_index_def py_int_def
        extend_path.simps)

theorem choose_random_path_shape_witness:
  "choose_random_path fork_model [0, 6/10, 0]
     = Inr (([0, 1, 2, 3], [leader_intensity, branch_intensity, leader_intensity, leader_intensity]), [])
   \<and> (\<exists>root_edge ls. choice (hd [0, 6/10, 0]) (roots fork_model) = Inr root_edge \<and>
           leader_chain fork_model (root_edge # ls) \<and>
           [0, 1, 2, 3] = root_edge # fst (expansions fork_model (root_edge # ls)) \<and>
           [leader_intensity, branch_intensity, leader_intensity, leader_intensity]
             = leader_intensity # snd (expansions fork_model (root_edge # ls)))
   \<and> leader_chain fork_model [0, 2, 3]
   \<and> expansions fork_model [0, 2, 3]
        = ([1, 2, 3], [branch_intensity, leader_intensity, leader_intensity])
   \<and> choice 0 (roots fork_model) = Inr (roots fork_model ! 0)
   \<and> length (filter (\<lambda>x. x = leader_intensity) (snd (expansions fork_model [0, 2]))) = 1
   \<and> (\<exists>out. choose_random_path fork_model [0, 6/10, 0] = Inr out)
   \<and> LightningStormLayer_render fork_model 1 [9/10]
        \<lparr>bolts = [], bolt_every = 1, storm_last_time = Some (1/2)\<rparr> [[0, 0, 0]]
      = Inr (\<lparr>bolts = [], bolt_every = 1, storm_last_time = Some 1\<rparr>, [[0, 0, 0]], [])
   \<and> (\<exists>new. bolts \<lparr>bolts = [], bolt_every = 1, storm_last_time = Some 1\<rparr>
              = purge 1 (bolts \<lparr>bolts = [], bolt_every = 1, storm_last_time = Some (1/2)\<rparr>) @ new
            \<and> length new \<le> 1)"
proof -
  let ?rank = "\<lambda>e::nat. if e = 0 then 2 else if e = 2 then 1 else (0::nat)"
  let ?L = "\<lparr>bolts = [], bolt_every = 1, storm_last_time = Some (1/2)\<rparr>"
  let ?L' = "\<lparr>bolts = [], bolt_every = 1, storm_last_time = Some 1\<rparr>"
  have chain: "leader_chain fork_model [0, 2, 3]"
    by (simp add: fork_model_def)
  have ex: "expansions fork_model [0, 2, 3]
        = ([1, 2, 3], [branch_intensity, leader_intensity, leader_intensity])"
    by (simp add: fork_model_def)
  have k: "0 < length (roots fork_model)" "real 0 \<le> 0 * real (length (roots fork_model))"
    "0 * real (length (roots fork_model)) < real 0 + 1"
    by (simp_all add: fork_model_def)
  have adj: "2 \<in> set (outwardAdjacency fork_model 0)" "distinct (outwardAdjacency fork_model 0)"
    by (simp_all add: fork_model_def)
  have tot: "roots fork_model \<noteq> []"
    "\<forall>e. \<forall>e' \<in> set (outwardAdjacency fork_model e). ?rank e' < ?rank e"
    "\<forall>d \<in> set [0, 6/10, 0::real]. 0 \<le> d \<and> d < 1"
    "\<forall>e \<in> set (roots fork_model). ?rank e < length [0, 6/10, 0::real]"
    by (simp_all add: fork_model_def)
  have rend: "LightningStormLayer_render fork_model 1 [9/10] ?L [[0, 0, 0]]
      = Inr (?L', [[0, 0, 0]], [])"
    by (simp add: LightningStormLayer_render_def strike_def purge_def)
  note t = choose_random_path_shape[of fork_model "[0, 6/10, 0]" "[0, 1, 2, 3]"
      "[leader_intensity, branch_intensity, leader_intensity, leader_intensity]" "[]"
      0 0 2 0 ?rank 1 "[9/10]" ?L "[[0, 0, 0]]" ?L' "[[0, 0, 0]]" "[]"]
  from t fork_model_run
  have c1: "\<exists>root_edge ls. choice (hd [0, 6/10, 0]) (roots fork_model) = Inr root_edge \<and>
           leader_chain fork_model (root_edge # ls) \<and>
           [0, 1, 2, 3] = root_edge # fst (expansions fork_model (root_edge # ls)) \<and>
           [leader_intensity, branch_intensity, leader_intensity, leader_intensity]
             = leader_intensity # snd (expansions fork_model (root_edge # ls))"
    by (rule conjunct1[THEN mp])
  from t k have c2: "choice 0 (roots fork_model) = Inr (roots fork_model ! 0)" by blast
  from t adj
  have c3: "length (filter (\<lambda>x. x = leader_intensity) (snd (expansions fork_model [0, 2]))) = 1"
    by blast
  from t tot have c4: "\<exists>out. choose_random_path fork_model [0, 6/10, 0] = Inr out" by blast
  from t rend have c5: "\<exists>new. bolts ?L' = purge 1 (bolts ?L) @ new \<and> length new \<le> 1" by blast
  from fork_model_run c1 chain ex c2 c3 c4 rend c5 show ?thesis by (intro conjI)
qed

section \<open>Bolt: light and expiry\<close>

lemma expansions_shape:
  "length (fst (expansions M ls)) = length (snd (expansions M ls)) \<and>
   set (snd (expansions M ls)) \<subseteq> {leader_intensity, branch_intensity}"
  by (induction M ls rule: expansions.induct) auto

lemma Bolt_init_fields:
  assumes "Bolt_init M t0 (u # ds) = Inr (b, ds')"
  shows "init_time b = t0" "pulse_time b = uniform u 0.25 0.35"
    "life_time b = pulse_time b + FADE_TIME" "bolt_color b = [230 / 255, 230 / 255, 1]"
    "length (intensities b) = length (bolt_edges b)"
    "set (intensities b) \<subseteq> {leader_intensity, branch_intensity}"
proof -
  from assms obtain es ints where
    cp: "choose_random_path M ds = Inr ((es, ints), ds')" and
    b: "b = \<lparr>init_time = t0, pulse_time = uniform u 0.25 0.35,
             bolt_color = map (\<lambda>v. v / 255.0) [230, 230, 255],
             life_time = uniform u 0.25 0.35 + FADE_TIME,
             bolt_edges = es, intensities = ints\<rparr>"
    by (auto simp: Bolt_init_def Let_def split: sum.splits prod.splits)
  from b show "init_time b = t0" "pulse_time b = uniform u 0.25 0.35"
    "life_time b = pulse_time b + FADE_TIME" "bolt_color b = [230 / 255, 230 / 255, 1]"
    by simp_all
  from choose_random_path_chain[OF cp] obtain r ls where
    "es = r # fst (expansions M (r # ls))" "ints = leader_intensity # snd (expansions M (r # ls))"
    by blast
  with expansions_shape[of M "r # ls"] b
  show "length (intensities b) = length (bolt_edges b)"
    "set (intensities b) \<subseteq> {leader_intensity, branch_intensity}"
    by auto
qed

lemma pulse_positive:
  assumes "x = leader_intensity \<or> x = branch_intensity" and "- 1 \<le> ph" "ph \<le> 1"
  shows "0 < x + ph * PULSE_INTENSITY"
proof -
  have "- (8/100) \<le> ph * PULSE_INTENSITY" using assms(2) by (simp add: PULSE_INTENSITY_def)
  moreover have "36/100 \<le> x" using assms(1)
    by (auto simp: leader_intensity_def branch_intensity_def PULSE_INTENSITY_def
          SECONDARY_BRANCH_INTENSITY_def)
  ultimately show ?thesis by linarith
qed

lemma mixAdd_at_step:
  assumes e: "e < length fr" and row: "3 \<le> length (fr ! e)" and pos: "0 < r" "0 < g" "0 < b"
  shows "\<exists>fr1. mixAdd_at fr e [r, g, b] = Inr fr1 \<and> length fr1 = length fr \<and>
           (\<forall>e' < length fr. length (fr1 ! e') = length (fr ! e') \<and>
              (\<forall>v < length (fr ! e').
                 (e' = e \<and> v < 3 \<longrightarrow> fr ! e' ! v < fr1 ! e' ! v) \<and>
                 (\<not> (e' = e \<and> v < 3) \<longrightarrow> fr1 ! e' ! v = fr ! e' ! v)))"
proof -
  let ?row = "(fr ! e)[0 := fr ! e ! 0 + r, 1 := fr ! e ! 1 + g, 2 := fr ! e ! 2 + b]"
  have run: "mixAdd_at fr e [r, g, b] = Inr (fr[e := ?row])"
    using e row by (simp add: mixAdd_at_def mixAdd_def)
  have cell: "(v < 3 \<longrightarrow> fr ! e ! v < ?row ! v) \<and> (\<not> v < 3 \<longrightarrow> ?row ! v = fr ! e ! v)"
    if "v < length (fr ! e)" for v
    using that row pos by (auto simp: nth_list_update less_Suc_eq numeral_3_eq_3 numeral_2_eq_2)
  have cells: "length (fr[e := ?row] ! e') = length (fr ! e') \<and>
              (\<forall>v < length (fr ! e').
                 (e' = e \<and> v < 3 \<longrightarrow> fr ! e' ! v < fr[e := ?row] ! e' ! v) \<and>
                 (\<not> (e' = e \<and> v < 3) \<longrightarrow> fr[e := ?row] ! e' ! v = fr ! e' ! v))"
    if e': "e' < length fr" for e'
  proof (cases "e' = e")
    case True
    with e have "fr[e := ?row] ! e' = ?row" by simp
    with True cell show ?thesis by simp
  next
    case False
    hence "fr[e := ?row] ! e' = fr ! e'" by simp
    with False show ?thesis by simp
  qed
  hence every: "\<forall>e' < length fr. length (fr[e := ?row] ! e') = length (fr ! e') \<and>
              (\<forall>v < length (fr ! e').
                 (e' = e \<and> v < 3 \<longrightarrow> fr ! e' ! v < fr[e := ?row] ! e' ! v) \<and>
                 (\<not> (e' = e \<and> v < 3) \<longrightarrow> fr[e := ?row] ! e' ! v = fr ! e' ! v))"
    by blast
  have len: "length (fr[e := ?row]) = length fr" by simp
  show ?thesis
    by (rule exI[of _ "fr[e := ?row]"], intro conjI, rule run, rule len, rule every)
qed

lemma update_edges_adds:
  assumes col: "bolt_color b = [c0, c1, c2]" "0 < c0" "0 < c1" "0 < c2"
    and k: "\<forall>x \<in> set (intensities b). 0 < k x"
  shows "i + length es \<le> length (intensities b) \<Longrightarrow>
         \<forall>e \<in> set es. e < length fr \<and> 3 \<le> length (fr ! e) \<Longrightarrow>
         \<exists>fr'. update_edges b k i es fr = Inr fr' \<and> length fr' = length fr \<and>
           (\<forall>e < length fr. length (fr' ! e) = length (fr ! e) \<and>
              (\<forall>v < length (fr ! e).
                 (e \<in> set es \<and> v < 3 \<longrightarrow> fr ! e ! v < fr' ! e ! v) \<and>
                 (\<not> (e \<in> set es \<and> v < 3) \<longrightarrow> fr' ! e ! v = fr ! e ! v)))"
proof (induction es arbitrary: i fr)
  case Nil
  then show ?case by simp
next
  case (Cons e es)
  from Cons.prems(1) have i: "i < length (intensities b)" by simp
  hence kp: "0 < k (intensities b ! i)" using k by simp
  from Cons.prems(2) have e: "e < length fr" "3 \<le> length (fr ! e)" by simp_all
  let ?cs = "[c0 * k (intensities b ! i), c1 * k (intensities b ! i), c2 * k (intensities b ! i)]"
  from mixAdd_at_step[OF e, of "c0 * k (intensities b ! i)" "c1 * k (intensities b ! i)"
      "c2 * k (intensities b ! i)"] col kp
  obtain fr1 where m: "mixAdd_at fr e ?cs = Inr fr1" and l1: "length fr1 = length fr"
    and s1: "\<And>e'. e' < length fr \<Longrightarrow> length (fr1 ! e') = length (fr ! e')"
    and c1: "\<And>e' v. e' < length fr \<Longrightarrow> v < length (fr ! e') \<Longrightarrow>
                 (e' = e \<and> v < 3 \<longrightarrow> fr ! e' ! v < fr1 ! e' ! v) \<and>
                 (\<not> (e' = e \<and> v < 3) \<longrightarrow> fr1 ! e' ! v = fr ! e' ! v)"
    by auto
  have p1: "i + 1 + length es \<le> length (intensities b)" using Cons.prems(1) by simp
  have p2: "\<forall>e' \<in> set es. e' < length fr1 \<and> 3 \<le> length (fr1 ! e')"
    using Cons.prems(2) l1 s1 by simp
  from Cons.IH[OF p1 p2] obtain fr' where
    u: "update_edges b k (i + 1) es fr1 = Inr fr'" and l2: "length fr' = length fr1"
    and s2: "\<And>e'. e' < length fr1 \<Longrightarrow> length (fr' ! e') = length (fr1 ! e')"
    and c2: "\<And>e' v. e' < length fr1 \<Longrightarrow> v < length (fr1 ! e') \<Longrightarrow>
                 (e' \<in> set es \<and> v < 3 \<longrightarrow> fr1 ! e' ! v < fr' ! e' ! v) \<and>
                 (\<not> (e' \<in> set es \<and> v < 3) \<longrightarrow> fr' ! e' ! v = fr1 ! e' ! v)"
    by auto
  have run: "update_edges b k i (e # es) fr = Inr fr'"
    using i m u col(1) by simp
  have cell: "(e' \<in> set (e # es) \<and> v < 3 \<longrightarrow> fr ! e' ! v < fr' ! e' ! v) \<and>
              (\<not> (e' \<in> set (e # es) \<and> v < 3) \<longrightarrow> fr' ! e' ! v = fr ! e' ! v)"
    if h: "e' < length fr" "v < length (fr ! e')" for e' v
  proof -
    note a = c1[OF h]
    have "e' < length fr1" "v < length (fr1 ! e')" using h l1 s1 by simp_all
    note b = c2[OF this]
    show ?thesis
    proof (cases "v < 3")
      case False
      with a b show ?thesis by simp
    next
      case True
      show ?thesis
      proof (cases "e' = e")
        case e1: True
        with a True have "fr ! e' ! v < fr1 ! e' ! v" by simp
        moreover from b have "fr1 ! e' ! v \<le> fr' ! e' ! v" by (cases "e' \<in> set es \<and> v < 3") auto
        ultimately show ?thesis using e1 True by simp
      next
        case e2: False
        with a have "fr1 ! e' ! v = fr ! e' ! v" by simp
        with b e2 show ?thesis by auto
      qed
    qed
  qed
  have "length (fr' ! e') = length (fr ! e')" if "e' < length fr" for e'
    using that s1 s2 l1 by simp
  with run l1 l2 cell show ?case by simp
qed

lemma strike_new_bolts:
  "strike M time rs L = Inr (L', rs') \<Longrightarrow>
   \<exists>new. bolts L' = purge time (bolts L) @ new \<and> (\<forall>n \<in> set new. init_time n = time)"
  by (auto simp: strike_def Let_def Bolt_init_def split: if_splits list.splits sum.splits prod.splits)

lemma render_new_bolts:
  "LightningStormLayer_render M time rs L fr = Inr (L', fr', rs') \<Longrightarrow>
   \<exists>new. bolts L' = purge time (bolts L) @ new \<and> (\<forall>n \<in> set new. init_time n = time)"
  by (auto simp: LightningStormLayer_render_def split: sum.splits prod.splits dest: strike_new_bolts)

lemma expired_purged:
  "life_time b \<le> time - init_time b \<Longrightarrow> b \<notin> set (purge time bs)"
  by (auto simp: purge_def)

text \<open>
  Claim C8: for a bolt built by the constructor, every stored intensity plus the
  pulse modulation (a cosine times \<^verbatim>\<open>PULSE_INTENSITY\<close>) is above zero. So a call of
  \<^verbatim>\<open>update_frame\<close> at an elapsed time below \<^verbatim>\<open>pulse_time\<close>, on a frame that has a
  row of three components for every edge of the path, returns a frame in which each
  of the three components of every edge on the path is strictly greater than before
  and nothing else has changed. A bolt whose elapsed time has reached
  \<^verbatim>\<open>pulse_time + FADE_TIME\<close> is dropped by the purge, and is not among the bolts of
  the layer after a render pass at that time, so that pass does not draw it.
\<close>

theorem update_frame_adds_light:
  "Bolt_init M t0 (u # ds) = Inr (b, ds') \<Longrightarrow>
   (\<forall>x \<in> set (intensities b). \<forall>ph. - 1 \<le> ph \<and> ph \<le> 1 \<longrightarrow> 0 < x + ph * PULSE_INTENSITY) \<and>
   (current_time - t0 < pulse_time b \<and>
    (\<forall>e \<in> set (bolt_edges b). e < length fr \<and> 3 \<le> length (fr ! e)) \<longrightarrow>
      (\<exists>fr'. update_frame b fr current_time = Inr fr' \<and> length fr' = length fr \<and>
         (\<forall>e < length fr. length (fr' ! e) = length (fr ! e) \<and>
            (\<forall>v < length (fr ! e).
               (e \<in> set (bolt_edges b) \<and> v < 3 \<longrightarrow> fr ! e ! v < fr' ! e ! v) \<and>
               (\<not> (e \<in> set (bolt_edges b) \<and> v < 3) \<longrightarrow> fr' ! e ! v = fr ! e ! v))))) \<and>
   (0 \<le> u \<and> pulse_time b + FADE_TIME \<le> time - t0 \<longrightarrow>
      b \<notin> set (purge time bs) \<and>
      (LightningStormLayer_render M' time rs L fr0 = Inr (L', fr1, rs') \<longrightarrow>
         b \<notin> set (bolts L')))"
proof -
  assume init: "Bolt_init M t0 (u # ds) = Inr (b, ds')"
  note f = Bolt_init_fields[OF init]
  have base: "0 < x + ph * PULSE_INTENSITY"
    if "x \<in> set (intensities b)" "- 1 \<le> ph" "ph \<le> 1" for x ph
    using pulse_positive[of x ph] that f(6) by auto
  have lit: "\<exists>fr'. update_frame b fr current_time = Inr fr' \<and> length fr' = length fr \<and>
         (\<forall>e < length fr. length (fr' ! e) = length (fr ! e) \<and>
            (\<forall>v < length (fr ! e).
               (e \<in> set (bolt_edges b) \<and> v < 3 \<longrightarrow> fr ! e ! v < fr' ! e ! v) \<and>
               (\<not> (e \<in> set (bolt_edges b) \<and> v < 3) \<longrightarrow> fr' ! e ! v = fr ! e ! v)))"
    if dt: "current_time - t0 < pulse_time b"
      and rows: "\<forall>e \<in> set (bolt_edges b). e < length fr \<and> 3 \<le> length (fr ! e)"
  proof -
    let ?ph = "cos (2 * pi * (current_time - t0) * PULSE_FREQUENCY)"
    have k: "\<forall>x \<in> set (intensities b). 0 < x + ?ph * PULSE_INTENSITY"
      using base by simp
    have uf: "update_frame b fr current_time
              = update_edges b (\<lambda>x. x + ?ph * PULSE_INTENSITY) 0 (bolt_edges b) fr"
      using dt f(1) by (simp add: update_frame_def Let_def)
    from update_edges_adds[of b "230 / 255" "230 / 255" 1 "\<lambda>x. x + ?ph * PULSE_INTENSITY"
        0 "bolt_edges b" fr, OF f(4) _ _ _ k _ rows] f(5)
    show ?thesis unfolding uf by simp
  qed
  have gone: "b \<notin> set (purge time bs) \<and>
      (LightningStormLayer_render M' time rs L fr0 = Inr (L', fr1, rs') \<longrightarrow>
         b \<notin> set (bolts L'))"
    if u: "0 \<le> u" and late: "pulse_time b + FADE_TIME \<le> time - t0"
  proof -
    from late f have ex: "life_time b \<le> time - init_time b" by simp
    have lt: "0 < life_time b" using u f(2,3) by (simp add: uniform_def FADE_TIME_def)
    have "b \<notin> set (bolts L')"
      if r: "LightningStormLayer_render M' time rs L fr0 = Inr (L', fr1, rs')"
    proof -
      from render_new_bolts[OF r] obtain new where
        n: "bolts L' = purge time (bolts L) @ new" "\<forall>n \<in> set new. init_time n = time" by blast
      have "b \<notin> set new"
      proof
        assume "b \<in> set new"
        with n(2) have "init_time b = time" by simp
        with ex lt show False by simp
      qed
      with n(1) expired_purged[OF ex, of "bolts L"] show ?thesis by simp
    qed
    with expired_purged[OF ex, of bs] show ?thesis by simp
  qed
  from base lit gone show ?thesis by blast
qed

text \<open>The theorem on the bolt of the chain model, lit at time 0 and expired at time 0.5.\<close>

lemma chain_bolt_init: "Bolt_init chain_model 0 [0, 0, 0] = Inr (chain_bolt, [])"
  by (simp add: Bolt_init_def choose_random_path_def extend_path.simps chain_model_def
        choice_def py_index_def py_int_def uniform_def FADE_TIME_def chain_bolt_def)

lemma chain_bolt_lit:
  "update_frame chain_bolt [[0, 0, 0], [0, 0, 0]] 0 = Inr [[46/51, 46/51, 1], [46/51, 46/51, 1]]"
  by (simp add: update_frame_def chain_bolt_def mixAdd_at_def mixAdd_def
        leader_intensity_def PULSE_INTENSITY_def)

lemma chain_bolt_render:
  "LightningStormLayer_render chain_model (1/2) [9/10]
      \<lparr>bolts = [chain_bolt], bolt_every = 1, storm_last_time = Some (1/4)\<rparr> [[0, 0, 0], [0, 0, 0]]
    = Inr (\<lparr>bolts = [], bolt_every = 1, storm_last_time = Some (1/2)\<rparr>, [[0, 0, 0], [0, 0, 0]], [])"
  by (simp add: LightningStormLayer_render_def strike_def purge_def chain_bolt_def)

theorem update_frame_adds_light_witness:
  "Bolt_init chain_model 0 [0, 0, 0] = Inr (chain_bolt, [])
   \<and> 0 - 0 < pulse_time chain_bolt
   \<and> update_frame chain_bolt [[0, 0, 0], [0, 0, 0]] 0 = Inr [[46/51, 46/51, 1], [46/51, 46/51, 1]]
   \<and> pulse_time chain_bolt + FADE_TIME \<le> 1/2 - 0
   \<and> chain_bolt \<notin> set (purge (1/2) [chain_bolt])
   \<and> LightningStormLayer_render chain_model (1/2) [9/10]
        \<lparr>bolts = [chain_bolt], bolt_every = 1, storm_last_time = Some (1/4)\<rparr> [[0, 0, 0], [0, 0, 0]]
      = Inr (\<lparr>bolts = [], bolt_every = 1, storm_last_time = Some (1/2)\<rparr>, [[0, 0, 0], [0, 0, 0]], [])
   \<and> chain_bolt \<notin> set (bolts \<lparr>bolts = [], bolt_every = 1, storm_last_time = Some (1/2)\<rparr>)"
proof -
  have h1: "(0::real) - 0 < pulse_time chain_bolt" by (simp add: chain_bolt_def)
  have h2: "\<forall>e \<in> set (bolt_edges chain_bolt).
              e < length [[0, 0, 0], [0, 0, 0::real]] \<and> 3 \<le> length ([[0, 0, 0], [0, 0, 0::real]] ! e)"
    by (simp add: chain_bolt_def)
  have h3: "pulse_time chain_bolt + FADE_TIME \<le> 1/2 - 0"
    by (simp add: chain_bolt_def FADE_TIME_def)
  note t = update_frame_adds_light[OF chain_bolt_init, of 0 "[[0, 0, 0], [0, 0, 0]]" "1/2"
      "[chain_bolt]" chain_model "[9/10]"
      "\<lparr>bolts = [chain_bolt], bolt_every = 1, storm_last_time = Some (1/4)\<rparr>"
      "[[0, 0, 0], [0, 0, 0]]" "\<lparr>bolts = [], bolt_every = 1, storm_last_time = Some (1/2)\<rparr>"
      "[[0, 0, 0], [0, 0, 0]]" "[]"]
  from t h3 chain_bolt_render
  have gone: "chain_bolt \<notin> set (purge (1/2) [chain_bolt])"
    "chain_bolt \<notin> set (bolts \<lparr>bolts = [], bolt_every = 1, storm_last_time = Some (1/2)\<rparr>)"
    by simp_all
  from chain_bolt_init h1 chain_bolt_lit h3 gone chain_bolt_render show ?thesis by (intro conjI)
qed

section \<open>LightningStormLayer: the strike\<close>

lemma strike_decision:
  "truthy (storm_last_time L) \<Longrightarrow> bolt_every L \<noteq> 0 \<Longrightarrow>
   strike M time (r # rs) L =
     (if r < (time - the (storm_last_time L)) / bolt_every L then
        (case Bolt_init M time rs of
           Inl x \<Rightarrow> Inl x
         | Inr (b, rs') \<Rightarrow>
             Inr (L\<lparr>bolts := purge time (bolts L) @ [b], storm_last_time := Some time\<rparr>, rs'))
      else Inr (L\<lparr>bolts := purge time (bolts L), storm_last_time := Some time\<rparr>, rs))"
  by (simp add: strike_def Let_def)

text \<open>
  Claim C7 says that on every tick after the first a bolt strikes exactly when the
  time since the last tick, divided by \<^verbatim>\<open>bolt_every\<close>, is above the draw. The test
  \<^verbatim>\<open>if not self.last_time\<close> is meant for the clock that is still None, but it also
  takes a stored time 0 (the default of \<^verbatim>\<open>EffectParameters.time\<close>) for unset: the
  elapsed time is then 0 and no bolt strikes, whatever the draw. In the run below the
  layer with \<^verbatim>\<open>bolt_every\<close> 1 is rendered at time 0 and then at time 0.6 with the
  draw 0.5: the quotient 0.6 is above the draw and no bolt is spawned. When the stored
  time is not 0, the decision is the one of the claim, and the purge comes before it
  (lemma \<open>strike_decision\<close>).
\<close>

theorem zero_clock_hides_elapsed_time:
  "LightningStormLayer_render chain_model 0 [1/2] (LightningStormLayer_init 1)
       [[0, 0, 0], [0, 0, 0]]
     = Inr (\<lparr>bolts = [], bolt_every = 1, storm_last_time = Some 0\<rparr>, [[0, 0, 0], [0, 0, 0]], [])
   \<and> LightningStormLayer_render chain_model (6/10) [1/2]
       \<lparr>bolts = [], bolt_every = 1, storm_last_time = Some 0\<rparr> [[0, 0, 0], [0, 0, 0]]
     = Inr (\<lparr>bolts = [], bolt_every = 1, storm_last_time = Some (6/10)\<rparr>,
            [[0, 0, 0], [0, 0, 0]], [])
   \<and> (1/2 :: real) < (6/10 - 0) / 1"
  by (simp add: LightningStormLayer_render_def LightningStormLayer_init_def strike_def purge_def)

section \<open>Firefly: the nudge\<close>










end
